theory Spec2Isabelle
  imports Main "HOL-Library.Sublist"
begin

section \<open>Strings and characters\<close>

text \<open>
  A JavaScript string is a sequence of UTF-16 code units.  The model covers the strings
  whose code units are below 256 (the code points U+0000 to U+00FF): a \<^typ>\<open>char\<close> is one
  code unit, a \<^typ>\<open>string\<close> is one JavaScript string.  \<open>s.startsWith(p)\<close> is
  \<^term>\<open>prefix p s\<close> and \<open>s.includes(p)\<close> is \<^term>\<open>sublist p s\<close>.
\<close>

abbreviation dquote :: char where "dquote \<equiv> CHR 0x22"
abbreviation squote :: char where "squote \<equiv> CHR 0x27"

definition code :: "char \<Rightarrow> int" where
  "code c = of_char c"

definition is_quote :: "char \<Rightarrow> bool" where
  "is_quote c = (c = dquote \<or> c = squote)"

definition is_digit :: "char \<Rightarrow> bool" where
  "is_digit c = (48 \<le> code c \<and> code c \<le> 57)"

definition is_upper :: "char \<Rightarrow> bool" where
  "is_upper c = (65 \<le> code c \<and> code c \<le> 90)"

definition is_lower :: "char \<Rightarrow> bool" where
  "is_lower c = (97 \<le> code c \<and> code c \<le> 122)"

definition is_alpha :: "char \<Rightarrow> bool" where
  "is_alpha c = (is_upper c \<or> is_lower c)"

definition is_alnum :: "char \<Rightarrow> bool" where
  "is_alnum c = (is_alpha c \<or> is_digit c)"

text \<open>
  Case folding of a regular expression with the \<open>i\<close> flag and without the \<open>u\<close> flag:
  a code unit is compared after \<open>toUpperCase\<close>, except that a code unit of 128 or more is
  never folded onto an ASCII one.  Against an ASCII pattern this is ASCII upper-casing.
\<close>

definition ascii_upper :: "char \<Rightarrow> char" where
  "ascii_upper c = (if is_lower c then char_of (code c - 32) else c)"

definition ascii_lower :: "char \<Rightarrow> char" where
  "ascii_lower c = (if is_upper c then char_of (code c + 32) else c)"

text \<open>\<open>String.prototype.toLowerCase\<close> on code units below 256.\<close>

definition toLowerCase_char :: "char \<Rightarrow> char" where
  "toLowerCase_char c =
     (if is_upper c \<or> (192 \<le> code c \<and> code c \<le> 222 \<and> code c \<noteq> 215)
      then char_of (code c + 32) else c)"

definition toLowerCase :: "string \<Rightarrow> string" where
  "toLowerCase s = map toLowerCase_char s"

text \<open>A pattern literal matched at the head of the text, ignoring ASCII case.\<close>

definition iprefix :: "string \<Rightarrow> string \<Rightarrow> bool" where
  "iprefix p s = (length p \<le> length s \<and> map ascii_upper (take (length p) s) = map ascii_upper p)"

text \<open>\<open>s.split(c)\<close> for a one-character separator: the pieces between the separators.\<close>

fun split_on :: "char \<Rightarrow> string \<Rightarrow> string list" where
  "split_on c [] = [[]]"
| "split_on c (x # xs) =
     (if x = c then [] # split_on c xs
      else (case split_on c xs of [] \<Rightarrow> [[x]] | p # ps \<Rightarrow> (x # p) # ps))"

text \<open>The value of a string of decimal digits.\<close>

definition digits_value :: "string \<Rightarrow> int" where
  "digits_value s = foldl (\<lambda>a c. 10 * a + (code c - 48)) 0 s"


section \<open>The platform's URL parser\<close>

text \<open>
  \<open>new URL(s)\<close> is the URL parser of the platform, called without a base URL.  Its
  results for \<open>http\<close> and \<open>https\<close> URLs whose host is a domain of letters, digits, \<open>-\<close>, \<open>_\<close>
  and \<open>.\<close> are modelled here, with the three properties the routes read, and so are the
  inputs on which the parser fails whatever its version.  Every other input is left to a
  parameter of the model (\<open>Beyond\<close>): other schemes, credentials, IPv6 and IPv4 literals,
  punycode labels, and hosts with any other character (the double quote, \<open>%\<close>, \<open><\<close>, \<open>^\<close>,
  control characters, non-ASCII characters, ...), on which the versions of the parser differ.
\<close>

record URL =
  protocol :: string
  host :: string
  hostname :: string

datatype url_result = Parsed URL | TypeError | Beyond

definition c0_or_space :: "char \<Rightarrow> bool" where
  "c0_or_space c = (code c \<le> 32)"

definition tab_or_newline :: "char \<Rightarrow> bool" where
  "tab_or_newline c = (code c = 9 \<or> code c = 10 \<or> code c = 13)"

definition scheme_char :: "char \<Rightarrow> bool" where
  "scheme_char c = (is_alnum c \<or> c = CHR ''+'' \<or> c = CHR ''-'' \<or> c = CHR ''.'')"

definition is_slash :: "char \<Rightarrow> bool" where
  "is_slash c = (c = CHR ''/'' \<or> c = CHR 0x5C)"

definition authority_end :: "char \<Rightarrow> bool" where
  "authority_end c = (c = CHR ''/'' \<or> c = CHR ''?'' \<or> c = CHR ''#'' \<or> c = CHR 0x5C)"

text \<open>
  The code points that the parser has always refused in a host: NUL, tab, line feed,
  carriage return, space, \<open>#\<close>, \<open>/\<close>, \<open>:\<close>, \<open>?\<close>, \<open>@\<close>, \<open>[\<close>, the backslash and \<open>]\<close>.  A host that
  contains one never parses.
\<close>

definition forbidden_host_char :: "char \<Rightarrow> bool" where
  "forbidden_host_char c =
     (code c = 0 \<or> code c = 9 \<or> code c = 10 \<or> code c = 13 \<or> code c = 32 \<or>
      c \<in> set [CHR ''#'', CHR ''/'', CHR '':'', CHR ''?'', CHR ''@'', CHR ''['', CHR 0x5C,
                 CHR '']''])"

text \<open>The characters of the hosts whose parsing is modelled.\<close>

definition plain_host_char :: "char \<Rightarrow> bool" where
  "plain_host_char c = (is_alnum c \<or> c = CHR ''-'' \<or> c = CHR ''_'' \<or> c = CHR ''.'')"

text \<open>
  The label the parser's ends-in-a-number check looks at: the last label, an empty last
  label after a final dot being dropped first.
\<close>

definition last_label :: "string \<Rightarrow> string" where
  "last_label h =
     (let parts = split_on CHR ''.'' h;
          parts' = (if last parts = [] \<and> length parts \<noteq> 1 then butlast parts else parts)
      in last parts')"

definition parse_host :: "string \<Rightarrow> string \<Rightarrow> string \<Rightarrow> url_result" where
  "parse_host scheme h port =
     (if h = [] then TypeError
      else if \<exists>c \<in> set h. forbidden_host_char c then TypeError
      else if \<exists>c \<in> set h. \<not> plain_host_char c then Beyond
      else if \<exists>l \<in> set (split_on CHR ''.'' h). iprefix ''xn--'' l then Beyond
      else if last_label h \<noteq> [] \<and> is_digit (hd (last_label h)) then Beyond
      else if \<exists>c \<in> set port. \<not> is_digit c then TypeError
      else if digits_value port > 65535 then TypeError
      else
        let name = map ascii_lower h;
            default = (if scheme = ''http'' then 80 else 443);
            shown = (if dropWhile (\<lambda>c. c = CHR ''0'') port = [] then ''0''
                     else dropWhile (\<lambda>c. c = CHR ''0'') port)
        in Parsed \<lparr> protocol = scheme @ '':'',
                     host = (if port = [] \<or> digits_value port = default then name
                             else name @ '':'' @ shown),
                     hostname = name \<rparr>)"

definition URL_parse :: "string \<Rightarrow> url_result" where
  "URL_parse input =
     (let s = filter (\<lambda>c. \<not> tab_or_newline c)
                (rev (dropWhile c0_or_space (rev (dropWhile c0_or_space input))))
      in case s of
           [] \<Rightarrow> TypeError
         | c # _ \<Rightarrow>
             if \<not> is_alpha c then TypeError
             else (case dropWhile scheme_char s of
                     [] \<Rightarrow> TypeError
                   | d # after \<Rightarrow>
                       if d \<noteq> CHR '':'' then TypeError
                       else
                         let scheme = map ascii_lower (takeWhile scheme_char s) in
                         if scheme \<noteq> ''http'' \<and> scheme \<noteq> ''https'' then Beyond
                         else
                           let authority = takeWhile (\<lambda>c. \<not> authority_end c)
                                             (dropWhile is_slash after) in
                           if CHR ''@'' \<in> set authority \<or> CHR ''['' \<in> set authority then Beyond
                           else
                             parse_host scheme
                               (takeWhile (\<lambda>c. c \<noteq> CHR '':'') authority)
                               (drop 1 (dropWhile (\<lambda>c. c \<noteq> CHR '':'') authority))))"

text \<open>
  \<open>new URL(s)\<close>: \<open>None\<close> when the constructor throws.  \<open>ext\<close> is the platform's answer
  on the inputs that \<^const>\<open>URL_parse\<close> leaves open.
\<close>

definition URL_new :: "(string \<Rightarrow> URL option) \<Rightarrow> string \<Rightarrow> URL option" where
  "URL_new ext s =
     (case URL_parse s of Parsed u \<Rightarrow> Some u | TypeError \<Rightarrow> None | Beyond \<Rightarrow> ext s)"


section \<open>The URL helpers of the routes\<close>

definition isValidUrl :: "(string \<Rightarrow> URL option) \<Rightarrow> string \<Rightarrow> bool" where
  "isValidUrl ext url = (case URL_new ext url of Some _ \<Rightarrow> True | None \<Rightarrow> False)"

definition sanitizeUrl :: "string \<Rightarrow> string" where
  "sanitizeUrl url =
     (if \<not> prefix ''http://'' url \<and> \<not> prefix ''https://'' url then ''https://'' @ url
      else url)"


section \<open>Percent-encoding\<close>

text \<open>
  \<open>encodeURIComponent\<close>: every code unit but the letters, the digits and
  \<open>- _ . ! ~ * ' ( )\<close> is replaced by the escaped bytes of its UTF-8 encoding (one byte
  below 128, two bytes from 128 to 255).
\<close>

definition uri_unreserved :: "char \<Rightarrow> bool" where
  "uri_unreserved c = (is_alnum c \<or> c \<in> set (''-_.!~*()'' @ [squote]))"

definition hex_digit :: "int \<Rightarrow> char" where
  "hex_digit n = ''0123456789ABCDEF'' ! nat n"

definition pct :: "int \<Rightarrow> string" where
  "pct b = [CHR ''%'', hex_digit (b div 16), hex_digit (b mod 16)]"

definition encode_unit :: "char \<Rightarrow> string" where
  "encode_unit c =
     (if uri_unreserved c then [c]
      else if code c < 128 then pct (code c)
      else pct (192 + code c div 64) @ pct (128 + code c mod 64))"

definition encodeURIComponent :: "string \<Rightarrow> string" where
  "encodeURIComponent s = concat (map encode_unit s)"

text \<open>
  \<open>decodeURIComponent\<close>, the percent-decoding of a query parameter: \<open>URIError\<close> when it
  throws, \<open>Outside\<close> when the escaped bytes start a UTF-8 sequence of three or four bytes
  or of a code point above 255, which this model of strings does not hold.
\<close>

datatype decoded = Decoded string | URIError | Outside

definition hex_value :: "char \<Rightarrow> int option" where
  "hex_value c =
     (if is_digit c then Some (code c - 48)
      else if 65 \<le> code c \<and> code c \<le> 70 then Some (code c - 55)
      else if 97 \<le> code c \<and> code c \<le> 102 then Some (code c - 87)
      else None)"

definition pct_byte :: "string \<Rightarrow> int option" where
  "pct_byte s =
     (case s of
        p # h1 # h2 # _ \<Rightarrow>
          (if p = CHR ''%'' then
             (case (hex_value h1, hex_value h2) of
                (Some a, Some b) \<Rightarrow> Some (16 * a + b)
              | _ \<Rightarrow> None)
           else None)
      | _ \<Rightarrow> None)"

definition decoded_cons :: "char \<Rightarrow> decoded \<Rightarrow> decoded" where
  "decoded_cons c r = (case r of Decoded s \<Rightarrow> Decoded (c # s) | URIError \<Rightarrow> URIError
                       | Outside \<Rightarrow> Outside)"

fun decodeURIComponent :: "string \<Rightarrow> decoded" where
  "decodeURIComponent [] = Decoded []"
| "decodeURIComponent (c # cs) =
     (if c \<noteq> CHR ''%'' then decoded_cons c (decodeURIComponent cs)
      else (case pct_byte (c # cs) of
              None \<Rightarrow> URIError
            | Some b \<Rightarrow>
                if b < 128 then decoded_cons (char_of b) (decodeURIComponent (drop 2 cs))
                else if b < 194 \<or> 244 < b then URIError
                else if 195 < b then Outside
                else (case pct_byte (drop 2 cs) of
                        None \<Rightarrow> URIError
                      | Some b2 \<Rightarrow>
                          if 128 \<le> b2 \<and> b2 < 192
                          then decoded_cons (char_of ((b - 192) * 64 + (b2 - 128)))
                                 (decodeURIComponent (drop 5 cs))
                          else URIError)))"


section \<open>Replacing the matches of a regular expression\<close>

text \<open>
  \<open>text.replace(re, f)\<close> for a regular expression with the \<open>g\<close> flag whose matches are
  never empty: the text is scanned from the left; where the expression matches, the match
  is replaced by what the callback returns and the scan goes on after the match;
  elsewhere the character is kept.  The matcher \<open>m\<close> tells, for the text at the current
  position, the length of the match and its replacement.
\<close>

fun gsub :: "(string \<Rightarrow> (nat \<times> string) option) \<Rightarrow> string \<Rightarrow> string" where
  "gsub m [] = []"
| "gsub m (c # cs) =
     (case m (c # cs) of
        None \<Rightarrow> c # gsub m cs
      | Some (n, r) \<Rightarrow> r @ gsub m (drop (n - 1) cs))"

text \<open>The same without the \<open>g\<close> flag, and for a string pattern: the first match only.\<close>

fun sub_first :: "(string \<Rightarrow> (nat \<times> string) option) \<Rightarrow> string \<Rightarrow> string" where
  "sub_first m [] = []"
| "sub_first m (c # cs) =
     (case m (c # cs) of
        None \<Rightarrow> c # sub_first m cs
      | Some (n, r) \<Rightarrow> r @ drop (n - 1) cs)"

text \<open>The alternatives of a group, tried in their order.\<close>

fun first_some :: "('a \<Rightarrow> 'b option) \<Rightarrow> 'a list \<Rightarrow> 'b option" where
  "first_some f [] = None"
| "first_some f (x # xs) = (case f x of Some y \<Rightarrow> Some y | None \<Rightarrow> first_some f xs)"


section \<open>The HTML rewriter\<close>

definition urlAttributes :: "string list" where
  "urlAttributes = [''href'', ''src'', ''action'', ''data-src'', ''srcset'', ''data-srcset'',
     ''poster'', ''background'', ''formaction'', ''cite'', ''longdesc'', ''usemap'']"

definition proxied :: "string \<Rightarrow> string" where
  "proxied target = ''/api/proxy?url='' @ encodeURIComponent target"

subsection \<open>Absolute URLs in attributes\<close>

text \<open>
  \<open>https?:\/\/[^"']+\<close> at the head of the text, with a quote after it: the length of
  the URL.  The run of characters that are not quotes is taken whole, since a shorter
  run is followed by a character that is not a quote.
\<close>

definition abs_url_len :: "string \<Rightarrow> nat option" where
  "abs_url_len t =
     (case (if iprefix ''https://'' t then Some 8
            else if iprefix ''http://'' t then Some 7 else None) of
        None \<Rightarrow> None
      | Some k \<Rightarrow>
          let run = takeWhile (\<lambda>c. \<not> is_quote c) (drop k t) in
          if run \<noteq> [] \<and> drop (k + length run) t \<noteq> [] then Some (k + length run) else None)"

text \<open>
  \<open>((?:href|src|...)=["'])(?:https?:\/\/[^"']+)(["'])\<close> with the flags \<open>gi\<close>, at the
  head of the text: the match and its two groups.
\<close>

definition attributePattern :: "string \<Rightarrow> (string \<times> string \<times> string) option" where
  "attributePattern s =
     first_some
       (\<lambda>name.
          if iprefix name s then
            (case drop (length name) s of
               e # q # t \<Rightarrow>
                 if e = CHR ''='' \<and> is_quote q then
                   (case abs_url_len t of
                      None \<Rightarrow> None
                    | Some n \<Rightarrow>
                        Some (take (length name + 2 + n + 1) s,
                              take (length name + 2) s,
                              [t ! n]))
                 else None
             | _ \<Rightarrow> None)
          else None)
       urlAttributes"

text \<open>\<open>match.match(/["'](https?:\/\/[^"']+)["']/i)\<close>: the group of the first match.\<close>

fun search_quoted_url :: "string \<Rightarrow> string option" where
  "search_quoted_url [] = None"
| "search_quoted_url (c # cs) =
     (if is_quote c then
        (case abs_url_len cs of
           Some n \<Rightarrow> Some (take n cs)
         | None \<Rightarrow> search_quoted_url cs)
      else search_quoted_url cs)"

definition attribute_callback :: "string \<Rightarrow> string \<Rightarrow> string \<Rightarrow> string" where
  "attribute_callback match prefx suffx =
     (case search_quoted_url match of
        Some resourceUrl \<Rightarrow>
          if resourceUrl \<noteq> [] then prefx @ proxied resourceUrl @ suffx else match
      | None \<Rightarrow> match)"

definition rewrite_attributes :: "string \<Rightarrow> string" where
  "rewrite_attributes html =
     gsub (\<lambda>s. case attributePattern s of
                  None \<Rightarrow> None
                | Some (match, prefx, suffx) \<Rightarrow>
                    Some (length match, attribute_callback match prefx suffx))
       html"

subsection \<open>srcset lists\<close>

text \<open>White space of \<open>trim\<close> and of \<open>\s\<close>, among the code units below 256.\<close>

definition is_space :: "char \<Rightarrow> bool" where
  "is_space c = ((9 \<le> code c \<and> code c \<le> 13) \<or> code c = 32 \<or> code c = 160)"

definition trim :: "string \<Rightarrow> string" where
  "trim s = rev (dropWhile is_space (rev (dropWhile is_space s)))"

text \<open>\<open>s.split(/\s+/)\<close>: the pieces between the runs of white space.\<close>

function split_ws :: "string \<Rightarrow> string list" where
  "split_ws [] = [[]]"
| "split_ws (c # cs) =
     (if is_space c then [] # split_ws (dropWhile is_space cs)
      else (case split_ws cs of [] \<Rightarrow> [[c]] | p # ps \<Rightarrow> (c # p) # ps))"
  by pat_completeness auto
termination
  by (relation "measure length") (auto simp: length_dropWhile_le less_Suc_eq_le)

fun join :: "string \<Rightarrow> string list \<Rightarrow> string" where
  "join sep [] = []"
| "join sep [x] = x"
| "join sep (x # y # ys) = x @ sep @ join sep (y # ys)"

text \<open>
  One entry of the list.  \<open>url\<close> and \<open>descriptor\<close> are the first two pieces of the
  trimmed entry; the entry's \<open>url\<close> is also the argument of \<open>new URL\<close> in the branch of
  the root-relative entries.
\<close>

definition srcset_entry :: "(string \<Rightarrow> URL option) \<Rightarrow> string \<Rightarrow> string" where
  "srcset_entry ext src =
     (let pieces = split_ws (trim src);
          url = hd pieces;
          descriptor = (if length pieces > 1 then pieces ! 1 else []);
          tail = (if descriptor \<noteq> [] then '' '' @ descriptor else [])
      in if prefix ''http'' url then proxied url @ tail
         else if prefix ''/'' url then
           (case URL_new ext url of
              Some originalUrlObj \<Rightarrow>
                proxied (protocol originalUrlObj @ ''//'' @ host originalUrlObj @ url) @ tail
            | None \<Rightarrow> src)
         else src)"

text \<open>\<open>srcset=["']([^"']+)["']\<close> with the flags \<open>gi\<close>: the match and its group.\<close>

definition srcsetPattern :: "string \<Rightarrow> (string \<times> string) option" where
  "srcsetPattern s =
     (if iprefix ''srcset='' s then
        (case drop 7 s of
           q # t \<Rightarrow>
             let run = takeWhile (\<lambda>c. \<not> is_quote c) t in
             if is_quote q \<and> run \<noteq> [] \<and> drop (length run) t \<noteq> []
             then Some (take (7 + 1 + length run + 1) s, run) else None
         | [] \<Rightarrow> None)
      else None)"

definition srcset_callback :: "(string \<Rightarrow> URL option) \<Rightarrow> string \<Rightarrow> string" where
  "srcset_callback ext srcset =
     ''srcset='' @ [dquote] @
       join '', '' (map (srcset_entry ext) (split_on CHR '','' srcset)) @ [dquote]"

definition rewrite_srcset :: "(string \<Rightarrow> URL option) \<Rightarrow> string \<Rightarrow> string" where
  "rewrite_srcset ext html =
     gsub (\<lambda>s. case srcsetPattern s of
                  None \<Rightarrow> None
                | Some (match, srcset) \<Rightarrow> Some (length match, srcset_callback ext srcset))
       html"

subsection \<open>Root-relative URLs in attributes\<close>

text \<open>
  \<open>((?:href|src|...)=["'])\/([^"']*)(["'])\<close> with the flags \<open>gi\<close>: the match and its
  three groups.
\<close>

definition relativeUrlPattern :: "string \<Rightarrow> (string \<times> string \<times> string \<times> string) option" where
  "relativeUrlPattern s =
     first_some
       (\<lambda>name.
          if iprefix name s then
            (case drop (length name) s of
               e # q # sl # t \<Rightarrow>
                 let run = takeWhile (\<lambda>c. \<not> is_quote c) t in
                 if e = CHR ''='' \<and> is_quote q \<and> sl = CHR ''/'' \<and> drop (length run) t \<noteq> []
                 then Some (take (length name + 3 + length run + 1) s,
                            take (length name + 2) s,
                            run,
                            [t ! length run])
                 else None
             | _ \<Rightarrow> None)
          else None)
       urlAttributes"

text \<open>The base of the page: \<open>`${originalUrlObj.protocol}//${originalUrlObj.host}`\<close>.\<close>

definition base_of :: "URL \<Rightarrow> string" where
  "base_of originalUrlObj = protocol originalUrlObj @ ''//'' @ host originalUrlObj"

definition relative_callback ::
  "(string \<Rightarrow> URL option) \<Rightarrow> string \<Rightarrow> string \<Rightarrow> string \<Rightarrow> string \<Rightarrow> string \<Rightarrow> string" where
  "relative_callback ext url match prefx relativeUrl suffx =
     (case URL_new ext url of
        Some originalUrlObj \<Rightarrow>
          prefx @ proxied (base_of originalUrlObj @ ''/'' @ relativeUrl) @ suffx
      | None \<Rightarrow> match)"

definition rewrite_relative :: "(string \<Rightarrow> URL option) \<Rightarrow> string \<Rightarrow> string \<Rightarrow> string" where
  "rewrite_relative ext url html =
     gsub (\<lambda>s. case relativeUrlPattern s of
                  None \<Rightarrow> None
                | Some (match, prefx, relativeUrl, suffx) \<Rightarrow>
                    Some (length match, relative_callback ext url match prefx relativeUrl suffx))
       html"


subsection \<open>CSS references\<close>

text \<open>
  \<open>url\(['"]?([^)"']+)['"]?\)\<close> with the flags \<open>gi\<close>: the match and its group.  The
  opening quote is taken when there is one (the group cannot start with it), the group is
  the whole run up to the next quote or parenthesis, and a closing quote is taken when
  there is one.
\<close>

definition skip_quote :: "string \<Rightarrow> string" where
  "skip_quote t = (case t of [] \<Rightarrow> [] | q # r \<Rightarrow> if is_quote q then r else t)"

definition cssUrlPattern :: "string \<Rightarrow> (string \<times> string) option" where
  "cssUrlPattern s =
     (if iprefix ''url('' s then
        let t = skip_quote (drop 4 s);
            run = takeWhile (\<lambda>c. c \<noteq> CHR '')'' \<and> \<not> is_quote c) t;
            rest = skip_quote (drop (length run) t)
        in if run \<noteq> [] \<and> prefix '')'' rest
           then Some (take (length s - length rest + 1) s, run) else None
      else None)"

definition css_callback ::
  "(string \<Rightarrow> URL option) \<Rightarrow> string \<Rightarrow> string \<Rightarrow> string \<Rightarrow> string" where
  "css_callback ext url match resourceUrl =
     (if prefix ''http'' resourceUrl
      then ''url('' @ [squote] @ proxied resourceUrl @ [squote] @ '')''
      else if prefix ''/'' resourceUrl then
        (case URL_new ext url of
           Some originalUrlObj \<Rightarrow>
             ''url('' @ [squote] @ proxied (base_of originalUrlObj @ resourceUrl) @ [squote] @ '')''
         | None \<Rightarrow> match)
      else match)"

definition rewrite_css :: "(string \<Rightarrow> URL option) \<Rightarrow> string \<Rightarrow> string \<Rightarrow> string" where
  "rewrite_css ext url html =
     gsub (\<lambda>s. case cssUrlPattern s of
                  None \<Rightarrow> None
                | Some (match, resourceUrl) \<Rightarrow>
                    Some (length match, css_callback ext url match resourceUrl))
       html"

subsection \<open>Inline styles\<close>

definition bg_literal :: string where
  "bg_literal = ''background-image:url(''"

text \<open>
  \<open>background-image:url\(([^)]+)\)([^"']*)["']\<close> at the head of the text: the two
  groups and the length of what is matched.
\<close>

definition style_tail :: "string \<Rightarrow> (string \<times> string \<times> nat) option" where
  "style_tail t =
     (if iprefix bg_literal t then
        let u = drop (length bg_literal) t;
            bgUrl = takeWhile (\<lambda>c. c \<noteq> CHR '')'') u
        in (case drop (length bgUrl) u of
              [] \<Rightarrow> None
            | _ # w \<Rightarrow>
                let suffx = takeWhile (\<lambda>c. \<not> is_quote c) w in
                if bgUrl \<noteq> [] \<and> drop (length suffx) w \<noteq> []
                then Some (bgUrl, suffx, length bg_literal + length bgUrl + 1 + length suffx + 1)
                else None)
      else None)"

text \<open>
  \<open>([^"']*)\<close> before it: the longest run comes first, so a later place of the literal
  is preferred to an earlier one.
\<close>

fun style_body :: "string \<Rightarrow> (string \<times> string \<times> string \<times> nat) option" where
  "style_body [] = None"
| "style_body (c # cs) =
     (case (if is_quote c then None else style_body cs) of
        Some (prefx, bgUrl, suffx, n) \<Rightarrow> Some (c # prefx, bgUrl, suffx, Suc n)
      | None \<Rightarrow>
          (case style_tail (c # cs) of
             Some (bgUrl, suffx, n) \<Rightarrow> Some ([], bgUrl, suffx, n)
           | None \<Rightarrow> None))"

text \<open>
  \<open>style=["']([^"']*)background-image:url\(([^)]+)\)([^"']*)["']\<close> with the flags
  \<open>gi\<close>: the match and its three groups.
\<close>

definition stylePattern :: "string \<Rightarrow> (string \<times> string \<times> string \<times> string) option" where
  "stylePattern s =
     (if iprefix ''style='' s then
        (case drop 6 s of
           [] \<Rightarrow> None
         | q # t \<Rightarrow>
             if is_quote q then
               (case style_body t of
                  None \<Rightarrow> None
                | Some (prefx, bgUrl, suffx, n) \<Rightarrow> Some (take (7 + n) s, prefx, bgUrl, suffx))
             else None)
      else None)"

definition style_callback ::
  "(string \<Rightarrow> URL option) \<Rightarrow> string \<Rightarrow> string \<Rightarrow> string \<Rightarrow> string \<Rightarrow> string \<Rightarrow> string" where
  "style_callback ext url match prefx bgUrl suffx =
     (let cleanBgUrl = trim (filter (\<lambda>c. \<not> is_quote c) bgUrl) in
      if prefix ''http'' cleanBgUrl
      then ''style='' @ [dquote] @ prefx @ ''background-image:url('' @ [squote] @
             proxied cleanBgUrl @ [squote] @ '')'' @ suffx @ [dquote]
      else if prefix ''/'' cleanBgUrl then
        (case URL_new ext url of
           Some originalUrlObj \<Rightarrow>
             ''style='' @ [dquote] @ prefx @ ''background-image:url('' @ [squote] @
               proxied (base_of originalUrlObj @ cleanBgUrl) @ [squote] @ '')'' @ suffx @ [dquote]
         | None \<Rightarrow> match)
      else match)"

definition rewrite_style :: "(string \<Rightarrow> URL option) \<Rightarrow> string \<Rightarrow> string \<Rightarrow> string" where
  "rewrite_style ext url html =
     gsub (\<lambda>s. case stylePattern s of
                  None \<Rightarrow> None
                | Some (match, prefx, bgUrl, suffx) \<Rightarrow>
                    Some (length match, style_callback ext url match prefx bgUrl suffx))
       html"

subsection \<open>Location references, the base tag and the script\<close>

definition rewrite_location :: "string \<Rightarrow> string" where
  "rewrite_location html =
     gsub (\<lambda>s. if prefix ''window.location'' s
                then Some (length ''window.location'',
                           ''window.parent.postMessage('' @ [squote] @ ''navigate:'' @ [squote] @
                           '', '' @ [squote] @ ''*'' @ [squote] @ ''); window.location'')
                else None)
       html"

text \<open>\<open><head[^>]*>\<close>, without flags: the first match.\<close>

definition headPattern :: "string \<Rightarrow> string option" where
  "headPattern s =
     (if prefix ''<head'' s then
        let run = takeWhile (\<lambda>c. c \<noteq> CHR ''>'') (drop 5 s) in
        if drop (5 + length run) s \<noteq> [] then Some (take (5 + length run + 1) s) else None
      else None)"

definition baseTag :: "string \<Rightarrow> string" where
  "baseTag url = ''<base href='' @ [dquote] @ url @ [dquote] @ ''>''"

definition inject_base :: "string \<Rightarrow> string \<Rightarrow> string" where
  "inject_base url html =
     sub_first (\<lambda>s. case headPattern s of
                       None \<Rightarrow> None
                     | Some match \<Rightarrow> Some (length match, match @ baseTag url))
       html"

text \<open>
  \<open>html.replace('</head>', `${enhancementScript}</head>`)\<close>.  The script is a constant
  text of the source that holds no \<open>$\<close>, so the replacement is inserted as it is; the
  model takes the text as the parameter \<open>script\<close>.
\<close>

definition inject_script :: "string \<Rightarrow> string \<Rightarrow> string" where
  "inject_script script html =
     sub_first (\<lambda>s. if prefix ''</head>'' s
                     then Some (length ''</head>'', script @ ''</head>'') else None)
       html"

subsection \<open>The passes in their order\<close>

definition rewriteHtml ::
  "(string \<Rightarrow> URL option) \<Rightarrow> string \<Rightarrow> string \<Rightarrow> string \<Rightarrow> string" where
  "rewriteHtml ext script url html =
     inject_script script
       (inject_base url
          (rewrite_location
             (rewrite_style ext url
                (rewrite_css ext url
                   (rewrite_relative ext url
                      (rewrite_srcset ext
                         (rewrite_attributes html)))))))"


section \<open>The route \<open>/api/proxy\<close>\<close>

text \<open>
  The upstream response as the handler reads it: the entries of its headers and the bytes
  of its body.  The type \<open>'b\<close> of the bytes is left open; \<open>toString\<close> is
  \<open>Buffer.toString\<close>.
\<close>

record 'b upstream =
  up_headers :: "(string \<times> string) list"
  up_body :: 'b

text \<open>What the handler sends: a JSON message, the rewritten text or the bytes.\<close>

datatype 'b sent =
    Message string
  | Failure string string
  | Html string
  | Bytes 'b

text \<open>
  The response headers are kept under their lower-case names, as \<open>setHeader\<close> does; the
  status is 200 unless \<open>res.status\<close> is called.
\<close>

record 'b reply =
  res_status :: nat
  res_headers :: "string \<rightharpoonup> string"
  res_sent :: "'b sent"

text \<open>The handler's effects: the reply and the URLs it has fetched.\<close>

record 'b outcome =
  reply :: "'b reply"
  fetched :: "string list"

definition setHeader :: "string \<Rightarrow> string \<Rightarrow> (string \<rightharpoonup> string) \<Rightarrow> (string \<rightharpoonup> string)" where
  "setHeader name v hs = hs(toLowerCase name \<mapsto> v)"

text \<open>\<open>response.headers.get(name)\<close>: the lookup ignores case.\<close>

definition headers_get :: "(string \<times> string) list \<Rightarrow> string \<Rightarrow> string option" where
  "headers_get entries name =
     map_of (map (\<lambda>(k, v). (toLowerCase k, v)) entries) (toLowerCase name)"

definition safeHeaderKeys :: "string list" where
  "safeHeaderKeys = [''content-type'', ''content-length'', ''date'', ''connection'',
     ''last-modified'', ''etag'', ''vary'', ''content-encoding'',
     ''content-language'', ''expires'', ''pragma'', ''cache-control'',
     ''accept-ranges'', ''content-range'', ''set-cookie'']"

text \<open>The loop over \<open>response.headers.entries()\<close>.\<close>

fun forward_headers ::
  "(string \<times> string) list \<Rightarrow> (string \<rightharpoonup> string) \<Rightarrow> (string \<rightharpoonup> string)" where
  "forward_headers [] hs = hs"
| "forward_headers ((k, v) # entries) hs =
     forward_headers entries
       (if toLowerCase k \<in> set safeHeaderKeys then setHeader k v hs else hs)"

definition permissive_csp :: string where
  "permissive_csp =
     ''default-src * '' @ [squote] @ ''unsafe-inline'' @ [squote] @ '' '' @ [squote] @
     ''unsafe-eval'' @ [squote] @ '' data: blob:; connect-src * data: blob:; '' @
     ''img-src * data: blob:; media-src * data: blob:; font-src * data: blob:; '' @
     ''script-src * '' @ [squote] @ ''unsafe-inline'' @ [squote] @ '' '' @ [squote] @
     ''unsafe-eval'' @ [squote] @ ''; style-src * '' @ [squote] @ ''unsafe-inline'' @
     [squote] @ '';''"

definition security_headers :: "(string \<rightharpoonup> string) \<Rightarrow> (string \<rightharpoonup> string)" where
  "security_headers hs =
     setHeader ''Content-Security-Policy'' permissive_csp
       (setHeader ''Cache-Control'' ''no-cache, no-store, must-revalidate''
          (setHeader ''X-Content-Type-Options'' ''nosniff''
             (setHeader ''X-XSS-Protection'' ''1; mode=block''
                (setHeader ''X-Frame-Options'' ''ALLOWALL''
                   (setHeader ''Access-Control-Max-Age'' ''86400''
                      (setHeader ''Access-Control-Allow-Credentials'' ''true''
                         (setHeader ''Access-Control-Allow-Headers''
                            ''Origin, X-Requested-With, Content-Type, Accept, Authorization, X-HTTP-Method-Override''
                            (setHeader ''Access-Control-Allow-Methods''
                               ''GET, POST, PUT, DELETE, OPTIONS, HEAD, PATCH''
                               (setHeader ''Access-Control-Allow-Origin'' ''*'' hs)))))))))"

text \<open>The lower-case names of the headers that the handler sets itself.\<close>

definition fixed_names :: "string list" where
  "fixed_names = [''content-security-policy'', ''cache-control'', ''x-content-type-options'',
     ''x-xss-protection'', ''x-frame-options'', ''access-control-max-age'',
     ''access-control-allow-credentials'', ''access-control-allow-headers'',
     ''access-control-allow-methods'', ''access-control-allow-origin'']"

text \<open>\<open>response.headers.get('content-type') || 'text/html'\<close>.\<close>

definition contentType :: "'b upstream \<Rightarrow> string" where
  "contentType response =
     (case headers_get (up_headers response) ''content-type'' of
        None \<Rightarrow> ''text/html''
      | Some v \<Rightarrow> if v \<noteq> [] then v else ''text/html'')"

text \<open>The handler from the upstream response on.\<close>

definition relay ::
  "(string \<Rightarrow> URL option) \<Rightarrow> string \<Rightarrow> ('b \<Rightarrow> string) \<Rightarrow> string \<Rightarrow> 'b upstream \<Rightarrow> 'b reply" where
  "relay ext script toString url response =
     \<lparr> res_status = 200,
       res_headers = security_headers (forward_headers (up_headers response) Map.empty),
       res_sent =
         (if sublist ''text/html'' (contentType response)
          then Html (rewriteHtml ext script url (toString (up_body response)))
          else Bytes (up_body response)) \<rparr>"

text \<open>
  The handler.  \<open>urlParam\<close> is \<open>req.query.url\<close>, \<open>None\<close> when the parameter is missing;
  \<open>fetch\<close> is the call of \<open>fetch\<close> for this request, \<open>Inl\<close> the error it throws.
\<close>

definition proxy_handler ::
  "(string \<Rightarrow> URL option) \<Rightarrow> string \<Rightarrow> ('b \<Rightarrow> string) \<Rightarrow> (string \<Rightarrow> string + 'b upstream) \<Rightarrow>
   string option \<Rightarrow> 'b outcome" where
  "proxy_handler ext script toString fetch urlParam =
     (case urlParam of
        None \<Rightarrow>
          \<lparr> reply = \<lparr> res_status = 400, res_headers = Map.empty,
                       res_sent = Message ''URL parameter is required'' \<rparr>,
            fetched = [] \<rparr>
      | Some p \<Rightarrow>
          if p = [] then
            \<lparr> reply = \<lparr> res_status = 400, res_headers = Map.empty,
                         res_sent = Message ''URL parameter is required'' \<rparr>,
              fetched = [] \<rparr>
          else
            let url = sanitizeUrl p in
            if \<not> isValidUrl ext url then
              \<lparr> reply = \<lparr> res_status = 400, res_headers = Map.empty,
                           res_sent = Message ''Invalid URL provided'' \<rparr>,
                fetched = [] \<rparr>
            else
              (case fetch url of
                 Inl err \<Rightarrow>
                   \<lparr> reply = \<lparr> res_status = 500, res_headers = Map.empty,
                                res_sent = Failure ''Failed to proxy the request'' err \<rparr>,
                     fetched = [url] \<rparr>
               | Inr response \<Rightarrow>
                   \<lparr> reply = relay ext script toString url response, fetched = [url] \<rparr>))"


section \<open>The routes of the recent searches\<close>

text \<open>
  The table \<open>recent_searches\<close>: its rows in the order in which a \<open>select\<close> returns them,
  and the next value of the sequence behind the \<open>serial\<close> column.  Times are numbers.
\<close>

record recent_search =
  rs_id :: int
  rs_url :: string
  rs_title :: "string option"
  rs_favicon :: "string option"
  rs_visited_at :: int
  rs_user_id :: "int option"

record table =
  rows :: "recent_search list"
  next_id :: int

text \<open>
  The database is taken to be reachable.  A statement still fails, and the handler that
  sent it ends in its \<open>catch\<close>, when the database cannot hold one of its values: an id
  outside the 32 bits of the \<open>serial\<close> column, or a text with the character NUL.
\<close>

definition int4 :: "int \<Rightarrow> bool" where
  "int4 n = (- 2147483648 \<le> n \<and> n \<le> 2147483647)"





datatype answer =
    Error_message nat string
  | Row recent_search
  | Success



text \<open>
  \<open>parseInt(s)\<close> without a radix: the white space in front is skipped, a sign is read,
  \<open>0x\<close> or \<open>0X\<close> selects base 16, and the longest run of digits is the number; what
  follows it is ignored.  \<open>Inexact\<close> is a Number above \<open>2^53\<close>, which need not be the
  integer that was written.
\<close>

datatype number = NaN | Num int | Inexact

definition is_hex :: "char \<Rightarrow> bool" where
  "is_hex c = (hex_value c \<noteq> None)"

definition hex_digits_value :: "string \<Rightarrow> int" where
  "hex_digits_value s =
     foldl (\<lambda>a c. 16 * a + (case hex_value c of Some d \<Rightarrow> d | None \<Rightarrow> 0)) 0 s"

definition parseInt :: "string \<Rightarrow> number" where
  "parseInt str =
     (let S = dropWhile is_space str;
          negative = prefix ''-'' S;
          S1 = (if prefix ''-'' S \<or> prefix ''+'' S then drop 1 S else S);
          hex = (prefix ''0x'' S1 \<or> prefix ''0X'' S1);
          Z = (if hex then takeWhile is_hex (drop 2 S1) else takeWhile is_digit S1);
          mathInt = (if hex then hex_digits_value Z else digits_value Z)
      in if Z = [] then NaN
         else if mathInt > 9007199254740992 then Inexact
         else Num (if negative then - mathInt else mathInt))"

text \<open>
  The handler of \<open>DELETE /api/recent-searches/:id\<close>.  The \<open>delete\<close> compares the column
  \<open>id\<close> with the parsed number: for a number outside the 32 bits of the column the
  statement fails, and the \<open>catch\<close> answers 500.
\<close>

definition delete_recent_search :: "table \<Rightarrow> string \<Rightarrow> table \<times> answer" where
  "delete_recent_search db idParam =
     (case parseInt idParam of
        NaN \<Rightarrow> (db, Error_message 400 ''Invalid ID provided'')
      | Num n \<Rightarrow>
          if int4 n
          then (db \<lparr> rows := filter (\<lambda>r. rs_id r \<noteq> n) (rows db) \<rparr>, Success)
          else (db, Error_message 500 ''Failed to delete recent search'')
      | Inexact \<Rightarrow> (db, Error_message 500 ''Failed to delete recent search''))"

text \<open>What the specification calls a numeric id: a string of decimal digits.\<close>

definition numeric_id :: "string \<Rightarrow> bool" where
  "numeric_id s = (s \<noteq> [] \<and> list_all is_digit s)"


section \<open>Properties of the percent-encoding\<close>

lemma code_range: "0 \<le> code c \<and> code c < 256"
  unfolding code_def
  by (metis of_char_mod_256 pos_mod_bound pos_mod_sign zero_less_numeral)

lemma char_of_code: "char_of (code c) = c"
  by (simp add: code_def)

lemma hex_value_digit: "0 \<le> d \<Longrightarrow> d < 16 \<Longrightarrow> hex_value (hex_digit d) = Some d"
proof -
  assume "0 \<le> d" "d < 16"
  then have "d = 0 \<or> d = 1 \<or> d = 2 \<or> d = 3 \<or> d = 4 \<or> d = 5 \<or> d = 6 \<or> d = 7 \<or> d = 8
     \<or> d = 9 \<or> d = 10 \<or> d = 11 \<or> d = 12 \<or> d = 13 \<or> d = 14 \<or> d = 15" by arith
  then show ?thesis
    by (auto simp: hex_value_def hex_digit_def is_digit_def code_def)
qed

lemma pct_byte_pct: "0 \<le> b \<Longrightarrow> b < 256 \<Longrightarrow> pct_byte (pct b @ rest) = Some b"
proof -
  assume b: "0 \<le> b" "b < 256"
  have 1: "hex_value (hex_digit (b div 16)) = Some (b div 16)"
    using b by (intro hex_value_digit) auto
  have 2: "hex_value (hex_digit (b mod 16)) = Some (b mod 16)"
    using b by (intro hex_value_digit) auto
  show ?thesis by (simp add: pct_byte_def pct_def 1 2)
qed

lemma percent_reserved: "\<not> uri_unreserved (CHR ''%'')"
  by (simp add: uri_unreserved_def is_alnum_def is_alpha_def is_upper_def is_lower_def
      is_digit_def code_def)

lemma pct_shape: "\<exists>h1 h2. pct b = [CHR ''%'', h1, h2]"
  by (simp add: pct_def)

text \<open>Decoding what one code unit was encoded to gives the code unit back.\<close>

lemma decode_encode_unit:
  "decodeURIComponent (encode_unit c @ rest) = decoded_cons c (decodeURIComponent rest)"
proof (cases "uri_unreserved c")
  case True
  then have "c \<noteq> CHR ''%''" using percent_reserved by auto
  with True show ?thesis by (simp add: encode_unit_def)
next
  case False
  note r = code_range [of c]
  show ?thesis
  proof (cases "code c < 128")
    case True
    obtain h1 h2 where p: "pct (code c) = [CHR ''%'', h1, h2]"
      using pct_shape by blast
    have "pct_byte (pct (code c) @ rest) = Some (code c)"
      using r by (intro pct_byte_pct) auto
    then have "pct_byte (CHR ''%'' # h1 # h2 # rest) = Some (code c)"
      by (simp add: p)
    with False True show ?thesis
      by (simp add: encode_unit_def p char_of_code)
  next
    case hi: False
    let ?b1 = "192 + code c div 64" and ?b2 = "128 + code c mod 64"
    obtain h1 h2 where p1: "pct ?b1 = [CHR ''%'', h1, h2]"
      using pct_shape by blast
    obtain k1 k2 where p2: "pct ?b2 = [CHR ''%'', k1, k2]"
      using pct_shape by blast
    have b1: "194 \<le> ?b1 \<and> ?b1 \<le> 195" using r hi by auto
    have b2: "128 \<le> ?b2 \<and> ?b2 < 192" using r by auto
    have "pct_byte (pct ?b1 @ pct ?b2 @ rest) = Some ?b1"
      using b1 by (intro pct_byte_pct) auto
    then have e1: "pct_byte (CHR ''%'' # h1 # h2 # CHR ''%'' # k1 # k2 # rest) = Some ?b1"
      by (simp add: p1 p2)
    have "pct_byte (pct ?b2 @ rest) = Some ?b2"
      using b2 by (intro pct_byte_pct) auto
    then have e2: "pct_byte (CHR ''%'' # k1 # k2 # rest) = Some ?b2"
      by (simp add: p2)
    have v: "(?b1 - 192) * 64 + (?b2 - 128) = code c" by auto
    show ?thesis
      using False hi b1 b2
      by (simp add: encode_unit_def p1 p2 e1 e2 v char_of_code)
  qed
qed

lemma decode_encode: "decodeURIComponent (encodeURIComponent s) = Decoded s"
proof (induction s)
  case Nil
  show ?case by (simp add: encodeURIComponent_def)
next
  case (Cons c s)
  have "decodeURIComponent (encodeURIComponent (c # s))
        = decodeURIComponent (encode_unit c @ encodeURIComponent s)"
    by (simp add: encodeURIComponent_def)
  also have "\<dots> = decoded_cons c (decodeURIComponent (encodeURIComponent s))"
    by (rule decode_encode_unit)
  finally show ?case by (simp add: Cons.IH decoded_cons_def)
qed


section \<open>Properties of the scan\<close>

text \<open>Text in which no match begins is copied, and the scan goes on behind it.\<close>

lemma gsub_skip:
  "(\<And>s. s \<noteq> [] \<Longrightarrow> suffix s pre \<Longrightarrow> m (s @ rest) = None) \<Longrightarrow> gsub m (pre @ rest) = pre @ gsub m rest"
proof (induction pre)
  case Nil
  show ?case by simp
next
  case (Cons c pre)
  have "m ((c # pre) @ rest) = None"
    by (rule Cons.prems) auto
  moreover have "gsub m (pre @ rest) = pre @ gsub m rest"
  proof (rule Cons.IH)
    fix s assume "s \<noteq> []" "suffix s pre"
    then show "m (s @ rest) = None"
      by (intro Cons.prems) (auto simp: suffix_Cons)
  qed
  ultimately show ?case by simp
qed

lemma gsub_match:
  "m (x @ rest) = Some (length x, r) \<Longrightarrow> x \<noteq> [] \<Longrightarrow> gsub m (x @ rest) = r @ gsub m rest"
  by (cases x) auto

lemma first_some_unique:
  "x \<in> set xs \<Longrightarrow> f x = Some y \<Longrightarrow> (\<And>z. z \<in> set xs \<Longrightarrow> f z = None \<or> f z = Some y)
   \<Longrightarrow> first_some f xs = Some y"
proof (induction xs)
  case Nil
  then show ?case by simp
next
  case (Cons a xs)
  show ?case
  proof (cases "f a")
    case None
    with Cons.prems have "x \<in> set xs" by auto
    with Cons None show ?thesis by auto
  next
    case (Some w)
    with Cons.prems(3)[of a] show ?thesis by auto
  qed
qed

lemma names_no_equals: "\<forall>a \<in> set urlAttributes. CHR ''='' \<notin> set (map ascii_upper a)"
  by code_simp

lemma upper_equals: "ascii_upper (CHR ''='') = CHR ''=''"
  by (simp add: ascii_upper_def is_lower_def code_def)

lemma iprefix_same: "map ascii_upper x = map ascii_upper p \<Longrightarrow> iprefix p (x @ rest)"
proof -
  assume a: "map ascii_upper x = map ascii_upper p"
  then have "length x = length p" by (metis length_map)
  with a show ?thesis by (simp add: iprefix_def)
qed

text \<open>
  In front of an attribute's \<open>=\<close> only a name of the attribute's own length can match: the
  names hold no \<open>=\<close>.
\<close>

lemma name_end:
  assumes a': "a' \<in> set urlAttributes" and a: "a \<in> set urlAttributes"
    and nm: "map ascii_upper nm = map ascii_upper a"
    and ip: "iprefix a' (nm @ CHR ''='' # rest)"
    and eq: "drop (length a') (nm @ CHR ''='' # rest) = CHR ''='' # r"
  shows "length a' = length nm"
proof (rule ccontr)
  assume ne: "length a' \<noteq> length nm"
  have nmeq: "CHR ''='' \<notin> set (map ascii_upper nm)"
    using names_no_equals a nm by auto
  have nm_no: "CHR ''='' \<notin> set nm"
  proof
    assume "CHR ''='' \<in> set nm"
    then have "ascii_upper (CHR ''='') \<in> set (map ascii_upper nm)" by auto
    with nmeq show False by (simp add: upper_equals)
  qed
  show False
  proof (cases "length a' < length nm")
    case True
    then have "drop (length a') (nm @ CHR ''='' # rest) = drop (length a') nm @ CHR ''='' # rest"
      by simp
    moreover from True have "drop (length a') nm \<noteq> []" by simp
    ultimately have "hd (drop (length a') nm) = CHR ''=''"
      using eq by (cases "drop (length a') nm") auto
    moreover have "hd (drop (length a') nm) \<in> set nm"
      using True by (metis \<open>drop (length a') nm \<noteq> []\<close> hd_in_set in_set_dropD)
    ultimately show False using nm_no by simp
  next
    case False
    with ne have gt: "length nm < length a'" by simp
    from ip have m: "map ascii_upper (take (length a') (nm @ CHR ''='' # rest)) = map ascii_upper a'"
      and le: "length a' \<le> length (nm @ CHR ''='' # rest)"
      by (simp_all add: iprefix_def)
    have "map ascii_upper (take (length a') (nm @ CHR ''='' # rest)) ! length nm
          = ascii_upper ((nm @ CHR ''='' # rest) ! length nm)"
      using gt le by (simp add: nth_append)
    then have "map ascii_upper a' ! length nm = CHR ''=''"
      using m by (simp add: upper_equals)
    moreover have "length nm < length (map ascii_upper a')" using gt by simp
    ultimately have "CHR ''='' \<in> set (map ascii_upper a')"
      by (metis nth_mem)
    with names_no_equals a' show False by blast
  qed
qed



section \<open>The pass over the root-relative attribute values\<close>

lemma takeWhile_run:
  "\<forall>c \<in> set run. P c \<Longrightarrow> \<not> P q \<Longrightarrow> takeWhile P (run @ q # post) = run"
  by (simp add: takeWhile_tail)

lemma relative_head:
  assumes a: "a \<in> set urlAttributes" and nm: "map ascii_upper nm = map ascii_upper a"
    and q: "is_quote q" and q': "is_quote q'"
    and rel: "\<forall>c \<in> set rel. \<not> is_quote c"
  shows "relativeUrlPattern (nm @ CHR ''='' # q # CHR ''/'' # rel @ q' # post)
         = Some (nm @ CHR ''='' # q # CHR ''/'' # rel @ [q'], nm @ [CHR ''='', q], rel, [q'])"
    (is "relativeUrlPattern ?s = Some ?T")
proof -
  let ?f = "\<lambda>name.
          if iprefix name ?s then
            (case drop (length name) ?s of
               e # q # sl # t \<Rightarrow>
                 let run = takeWhile (\<lambda>c. \<not> is_quote c) t in
                 if e = CHR ''='' \<and> is_quote q \<and> sl = CHR ''/'' \<and> drop (length run) t \<noteq> []
                 then Some (take (length name + 3 + length run + 1) ?s,
                            take (length name + 2) ?s,
                            run,
                            [t ! length run])
                 else None
             | _ \<Rightarrow> None)
          else None"
  have run: "takeWhile (\<lambda>c. \<not> is_quote c) (rel @ q' # post) = rel"
    using rel q' by (intro takeWhile_run) auto
  have tk: "take (4 + length rel) (CHR ''='' # q # CHR ''/'' # rel @ q' # post)
            = CHR ''='' # q # CHR ''/'' # rel @ [q']"
    by (simp add: eval_nat_numeral)
  have same: "?f n = Some ?T" if "iprefix n ?s" "length n = length nm" for n
    using that q by (simp add: run nth_append tk)
  have len: "length a = length nm" using nm by (metis length_map)
  have "iprefix a ?s" using nm by (rule iprefix_same)
  then have fa: "?f a = Some ?T" using len by (rule same)
  have other: "?f z = None \<or> ?f z = Some ?T" if z: "z \<in> set urlAttributes" for z
  proof (cases "iprefix z ?s")
    case False
    then show ?thesis by simp
  next
    case True
    show ?thesis
    proof (cases "\<exists>r. drop (length z) ?s = CHR ''='' # r")
      case False
      then have "?f z = None"
        by (auto split: list.splits)
      then show ?thesis ..
    next
      case e: True
      then obtain r where "drop (length z) ?s = CHR ''='' # r" by blast
      with z a nm True have "length z = length nm"
        by (rule name_end)
      with True have "?f z = Some ?T" by (rule same)
      then show ?thesis ..
    qed
  qed
  have "first_some ?f urlAttributes = Some ?T"
    using a fa other by (rule first_some_unique)
  then show ?thesis by (simp add: relativeUrlPattern_def)
qed


text \<open>
  An attribute with a value that begins with \<open>/\<close>, behind a text in which no match of
  the pattern begins: the text is copied, the value is resolved against the page and
  proxied, and the scan goes on behind the attribute.
\<close>

lemma rewrite_relative_at:
  assumes a: "a \<in> set urlAttributes" and nm: "map ascii_upper nm = map ascii_upper a"
    and q: "is_quote q" and q': "is_quote q'"
    and rel: "\<forall>c \<in> set rel. \<not> is_quote c"
    and u: "URL_new ext url = Some u"
    and pre: "\<forall>s. s \<noteq> [] \<and> suffix s pre \<longrightarrow>
               relativeUrlPattern (s @ nm @ CHR ''='' # q # CHR ''/'' # rel @ q' # post) = None"
  shows "rewrite_relative ext url (pre @ nm @ CHR ''='' # q # CHR ''/'' # rel @ q' # post)
           = pre @ nm @ CHR ''='' # q #
               (''/api/proxy?url='' @
                  encodeURIComponent (protocol u @ ''//'' @ host u @ CHR ''/'' # rel)) @
               q' # rewrite_relative ext url post"
proof -
  let ?m = "\<lambda>s. case relativeUrlPattern s of
                  None \<Rightarrow> None
                | Some (match, prefx, relativeUrl, suffx) \<Rightarrow>
                    Some (length match, relative_callback ext url match prefx relativeUrl suffx)"
  let ?occ = "nm @ CHR ''='' # q # CHR ''/'' # rel @ [q']"
  let ?new = "nm @ CHR ''='' # q #
               (''/api/proxy?url='' @
                  encodeURIComponent (protocol u @ ''//'' @ host u @ CHR ''/'' # rel)) @ [q']"
  have head: "relativeUrlPattern (?occ @ post) = Some (?occ, nm @ [CHR ''='', q], rel, [q'])"
    using relative_head [OF a nm q q' rel, of post] by simp
  have cb: "relative_callback ext url ?occ (nm @ [CHR ''='', q]) rel [q'] = ?new"
    by (simp add: relative_callback_def u proxied_def base_of_def)
  have "?m (?occ @ post) = Some (length ?occ, ?new)"
    by (simp only: head cb option.case prod.case)
  then have at_occ: "gsub ?m (?occ @ post) = ?new @ gsub ?m post"
    by (rule gsub_match) simp
  have "gsub ?m (pre @ ?occ @ post) = pre @ gsub ?m (?occ @ post)"
  proof (rule gsub_skip)
    fix s :: string assume "s \<noteq> []" "suffix s pre"
    with pre have "relativeUrlPattern (s @ ?occ @ post) = None" by simp
    then show "?m (s @ ?occ @ post) = None" by simp
  qed
  with at_occ have "gsub ?m (pre @ ?occ @ post) = pre @ ?new @ gsub ?m post"
    by simp
  then show ?thesis
    by (simp add: rewrite_relative_def)
qed





section \<open>The URL helpers and the validation of the handler\<close>

text \<open>
  Claim C2, as stated, fails: \<open>a b\<close> does not begin with \<open>http://\<close> or \<open>https://\<close>, it is
  given the prefix \<open>https://\<close>, and the result does not parse as a URL.
\<close>

theorem scheme_less_input_may_not_parse:
  "\<not> prefix ''http://'' ''a b'' \<and> \<not> prefix ''https://'' ''a b''
   \<and> sanitizeUrl ''a b'' = ''https://a b''
   \<and> URL_parse (sanitizeUrl ''a b'') = TypeError"
  by code_simp

text \<open>
  Claim C2, amended.  An input that begins with neither \<open>http://\<close> nor \<open>https://\<close> is
  given the prefix \<open>https://\<close>, and an input that begins with one of them is unchanged.
  The result is then parsed: when the parser throws, the handler answers 400 with
  \<open>Invalid URL provided\<close> and fetches nothing; when it parses, the handler fetches
  exactly that URL.
\<close>

theorem sanitize_then_validate:
  "(\<not> prefix ''http://'' p \<and> \<not> prefix ''https://'' p \<longrightarrow> sanitizeUrl p = ''https://'' @ p)
   \<and> (prefix ''http://'' p \<or> prefix ''https://'' p \<longrightarrow> sanitizeUrl p = p)
   \<and> (p \<noteq> [] \<and> URL_new ext (sanitizeUrl p) = None \<longrightarrow>
        proxy_handler ext script toString fetch (Some p)
          = \<lparr> reply = \<lparr> res_status = 400, res_headers = Map.empty,
                         res_sent = Message ''Invalid URL provided'' \<rparr>,
              fetched = [] \<rparr>)
   \<and> (p \<noteq> [] \<and> URL_new ext (sanitizeUrl p) \<noteq> None \<longrightarrow>
        fetched (proxy_handler ext script toString fetch (Some p)) = [sanitizeUrl p])"
proof (intro conjI impI)
  assume "\<not> prefix ''http://'' p \<and> \<not> prefix ''https://'' p"
  then show "sanitizeUrl p = ''https://'' @ p" by (simp add: sanitizeUrl_def)
next
  assume "prefix ''http://'' p \<or> prefix ''https://'' p"
  then show "sanitizeUrl p = p" by (auto simp: sanitizeUrl_def)
next
  assume "p \<noteq> [] \<and> URL_new ext (sanitizeUrl p) = None"
  then show "proxy_handler ext script toString fetch (Some p)
          = \<lparr> reply = \<lparr> res_status = 400, res_headers = Map.empty,
                         res_sent = Message ''Invalid URL provided'' \<rparr>,
              fetched = [] \<rparr>"
    by (simp add: proxy_handler_def isValidUrl_def)
next
  assume "p \<noteq> [] \<and> URL_new ext (sanitizeUrl p) \<noteq> None"
  then show "fetched (proxy_handler ext script toString fetch (Some p)) = [sanitizeUrl p]"
    by (auto simp: proxy_handler_def isValidUrl_def Let_def split: sum.splits)
qed

text \<open>The theorem at \<open>example.com\<close>, \<open>http://example.com\<close> and \<open>a b\<close>.\<close>

theorem sanitize_then_validate_witness:
  "sanitizeUrl ''example.com'' = ''https://example.com''
   \<and> sanitizeUrl ''http://example.com'' = ''http://example.com''
   \<and> proxy_handler (\<lambda>_. None) [] (\<lambda>b :: string. b) (\<lambda>_. Inl ''unreachable'') (Some ''a b'')
       = \<lparr> reply = \<lparr> res_status = 400, res_headers = Map.empty,
                      res_sent = Message ''Invalid URL provided'' \<rparr>,
           fetched = [] \<rparr>
   \<and> fetched (proxy_handler (\<lambda>_. None) [] (\<lambda>b :: string. b) (\<lambda>_. Inl ''unreachable'')
        (Some ''example.com'')) = [''https://example.com'']"
proof -
  have 1: "\<not> prefix ''http://'' ''example.com'' \<and> \<not> prefix ''https://'' ''example.com''"
    by simp
  have 2: "prefix ''http://'' ''http://example.com'' \<or> prefix ''https://'' ''http://example.com''"
    by simp
  have 3: "''a b'' \<noteq> [] \<and> URL_new (\<lambda>_. None) (sanitizeUrl ''a b'') = None"
    by code_simp
  have 4: "''example.com'' \<noteq> [] \<and> URL_new (\<lambda>_. None) (sanitizeUrl ''example.com'') \<noteq> None"
    by code_simp
  have 5: "sanitizeUrl ''example.com'' = ''https://example.com''" by code_simp
  show ?thesis
    using sanitize_then_validate [of "''example.com''" "\<lambda>_. None" "[]" "\<lambda>b :: string. b" "\<lambda>_. Inl ''unreachable''"]
      sanitize_then_validate [of "''http://example.com''" "\<lambda>_. None" "[]" "\<lambda>b :: string. b" "\<lambda>_. Inl ''unreachable''"]
      sanitize_then_validate [of "''a b''" "\<lambda>_. None" "[]" "\<lambda>b :: string. b" "\<lambda>_. Inl ''unreachable''"]
      1 2 3 4 5
    by simp
qed

section \<open>The relay of the upstream response\<close>

lemma lower_names:
  "toLowerCase ''Content-Security-Policy'' = ''content-security-policy''"
  "toLowerCase ''Cache-Control'' = ''cache-control''"
  "toLowerCase ''X-Content-Type-Options'' = ''x-content-type-options''"
  "toLowerCase ''X-XSS-Protection'' = ''x-xss-protection''"
  "toLowerCase ''X-Frame-Options'' = ''x-frame-options''"
  "toLowerCase ''Access-Control-Max-Age'' = ''access-control-max-age''"
  "toLowerCase ''Access-Control-Allow-Credentials'' = ''access-control-allow-credentials''"
  "toLowerCase ''Access-Control-Allow-Headers'' = ''access-control-allow-headers''"
  "toLowerCase ''Access-Control-Allow-Methods'' = ''access-control-allow-methods''"
  "toLowerCase ''Access-Control-Allow-Origin'' = ''access-control-allow-origin''"
  by code_simp+

lemma security_headers_other:
  "k \<notin> set fixed_names \<Longrightarrow> security_headers hs k = hs k"
  by (simp add: security_headers_def setHeader_def lower_names fixed_names_def)

lemma security_headers_fixed:
  "security_headers hs ''access-control-allow-origin'' = Some ''*''"
  "security_headers hs ''access-control-allow-methods'' = Some ''GET, POST, PUT, DELETE, OPTIONS, HEAD, PATCH''"
  "security_headers hs ''access-control-allow-headers'' = Some ''Origin, X-Requested-With, Content-Type, Accept, Authorization, X-HTTP-Method-Override''"
  "security_headers hs ''access-control-allow-credentials'' = Some ''true''"
  "security_headers hs ''access-control-max-age'' = Some ''86400''"
  "security_headers hs ''x-frame-options'' = Some ''ALLOWALL''"
  "security_headers hs ''x-xss-protection'' = Some ''1; mode=block''"
  "security_headers hs ''x-content-type-options'' = Some ''nosniff''"
  "security_headers hs ''cache-control'' = Some ''no-cache, no-store, must-revalidate''"
  "security_headers hs ''content-security-policy'' = Some permissive_csp"
  by (simp_all add: security_headers_def setHeader_def lower_names)

lemma forward_headers_unsafe:
  "k \<notin> set safeHeaderKeys \<Longrightarrow> forward_headers entries hs k = hs k"
  by (induction entries hs rule: forward_headers.induct) (auto simp: setHeader_def)

lemma forward_headers_origin:
  "forward_headers entries hs k = Some v \<Longrightarrow>
     hs k = Some v \<or> (\<exists>n. (n, v) \<in> set entries \<and> toLowerCase n = k)"
  by (induction entries hs rule: forward_headers.induct)
     (auto simp: setHeader_def split: if_splits)

lemma forward_headers_present:
  "(n, v) \<in> set entries \<Longrightarrow> toLowerCase n \<in> set safeHeaderKeys \<Longrightarrow>
     forward_headers entries hs (toLowerCase n) \<noteq> None"
proof (induction entries hs rule: forward_headers.induct)
  case (1 hs)
  then show ?case by simp
next
  case (2 k w entries hs)
  have keep: "forward_headers es h x \<noteq> None" if "h x \<noteq> None" for es h x
    using that
    by (induction es h rule: forward_headers.induct) (auto simp: setHeader_def)
  show ?case
  proof (cases "(n, v) \<in> set entries")
    case True
    with 2 show ?thesis by simp
  next
    case False
    with 2 have "n = k" "v = w" by auto
    with 2 show ?thesis by (simp add: keep setHeader_def)
  qed
qed


lemma proxy_handler_relays:
  assumes "p \<noteq> []" and "isValidUrl ext (sanitizeUrl p)"
    and "fetch (sanitizeUrl p) = Inr response"
  shows "reply (proxy_handler ext script toString fetch (Some p))
         = relay ext script toString (sanitizeUrl p) response"
  using assms by (simp add: proxy_handler_def Let_def)

text \<open>
  Claim C3, as stated, fails: an upstream response whose \<open>content-type\<close> header is empty,
  or missing, has a content type that does not contain \<open>text/html\<close>, and its body is
  not relayed as it is but rewritten as a page.
\<close>

theorem untyped_body_is_rewritten:
  "headers_get [(''content-type'', [])] ''content-type'' = Some []
   \<and> \<not> sublist ''text/html'' []
   \<and> res_sent (reply (proxy_handler (\<lambda>_. None) ''S'' (\<lambda>b :: string. b)
        (\<lambda>_. Inr \<lparr> up_headers = [(''content-type'', [])], up_body = ''</head>'' \<rparr>)
        (Some ''example.com/a.bin'')))
     = Html ''S</head>''
   \<and> headers_get [] ''content-type'' = None
   \<and> res_sent (reply (proxy_handler (\<lambda>_. None) ''S'' (\<lambda>b :: string. b)
        (\<lambda>_. Inr \<lparr> up_headers = [], up_body = ''</head>'' \<rparr>)
        (Some ''example.com/a.bin'')))
     = Html ''S</head>''"
  by code_simp

text \<open>
  Claim C3, amended.  When the upstream response has a \<open>content-type\<close> header whose value
  is not empty and does not contain \<open>text/html\<close>, the handler sends the bytes of the
  upstream body as they are.  When the header is missing or empty, the handler takes the
  content type to be \<open>text/html\<close> and sends the body rewritten as a page.
\<close>

theorem non_html_body_relayed_unchanged:
  assumes "p \<noteq> []" and "isValidUrl ext (sanitizeUrl p)"
    and "fetch (sanitizeUrl p) = Inr response"
  shows "(headers_get (up_headers response) ''content-type'' = Some v \<and> v \<noteq> [] \<and>
            \<not> sublist ''text/html'' v \<longrightarrow>
          res_sent (reply (proxy_handler ext script toString fetch (Some p)))
            = Bytes (up_body response))
       \<and> (headers_get (up_headers response) ''content-type'' = None \<or>
          headers_get (up_headers response) ''content-type'' = Some [] \<longrightarrow>
          res_sent (reply (proxy_handler ext script toString fetch (Some p)))
            = Html (rewriteHtml ext script (sanitizeUrl p) (toString (up_body response))))"
proof (intro conjI impI)
  assume "headers_get (up_headers response) ''content-type'' = Some v \<and> v \<noteq> [] \<and>
            \<not> sublist ''text/html'' v"
  then have "contentType response = v"
    by (simp add: contentType_def)
  with \<open>headers_get (up_headers response) ''content-type'' = Some v \<and> v \<noteq> [] \<and>
            \<not> sublist ''text/html'' v\<close>
  show "res_sent (reply (proxy_handler ext script toString fetch (Some p)))
            = Bytes (up_body response)"
    using assms by (simp add: proxy_handler_relays relay_def)
next
  assume "headers_get (up_headers response) ''content-type'' = None \<or>
          headers_get (up_headers response) ''content-type'' = Some []"
  then have "contentType response = ''text/html''"
    by (auto simp: contentType_def)
  then show "res_sent (reply (proxy_handler ext script toString fetch (Some p)))
            = Html (rewriteHtml ext script (sanitizeUrl p) (toString (up_body response)))"
    using assms by (simp add: proxy_handler_relays relay_def)
qed

text \<open>
  The theorem at a style sheet, whose \<open>url(...)\<close> is not rewritten, and at a body with an
  empty \<open>content-type\<close>.
\<close>

theorem non_html_body_relayed_unchanged_witness:
  "res_sent (reply (proxy_handler (\<lambda>_. None) ''S'' (\<lambda>b :: string. b)
       (\<lambda>_. Inr \<lparr> up_headers = [(''content-type'', ''text/css'')],
                    up_body = ''a { background: url(/x.png) }'' \<rparr>)
       (Some ''example.com/site.css'')))
   = Bytes ''a { background: url(/x.png) }''
   \<and> res_sent (reply (proxy_handler (\<lambda>_. None) ''S'' (\<lambda>b :: string. b)
       (\<lambda>_. Inr \<lparr> up_headers = [(''content-type'', [])], up_body = ''</head>'' \<rparr>)
       (Some ''example.com/site.css'')))
   = Html ''S</head>''"
proof -
  let ?css = "\<lparr> up_headers = [(''content-type'', ''text/css'')],
                 up_body = ''a { background: url(/x.png) }'' \<rparr>"
  let ?raw = "\<lparr> up_headers = [(''content-type'', [])], up_body = ''</head>'' \<rparr>"
  have 1: "''example.com/site.css'' \<noteq> []" by simp
  have 2: "isValidUrl (\<lambda>_. None) (sanitizeUrl ''example.com/site.css'')" by code_simp
  have 3: "headers_get (up_headers ?css) ''content-type'' = Some ''text/css''
           \<and> ''text/css'' \<noteq> [] \<and> \<not> sublist ''text/html'' ''text/css''"
    by code_simp
  have 4: "headers_get (up_headers ?raw) ''content-type'' = Some []" by code_simp
  have 5: "rewriteHtml (\<lambda>_. None) ''S'' (sanitizeUrl ''example.com/site.css'') ''</head>''
           = ''S</head>''"
    by code_simp
  have a: "res_sent (reply (proxy_handler (\<lambda>_. None) ''S'' (\<lambda>b :: string. b) (\<lambda>_. Inr ?css)
             (Some ''example.com/site.css''))) = Bytes (up_body ?css)"
    using non_html_body_relayed_unchanged
      [where p = "''example.com/site.css''" and ext = "\<lambda>_. None" and fetch = "\<lambda>_. Inr ?css"
         and response = ?css and v = "''text/css''" and script = "''S''"
         and toString = "\<lambda>b :: string. b", OF 1 2 refl] 3
    by blast
  have b: "res_sent (reply (proxy_handler (\<lambda>_. None) ''S'' (\<lambda>b :: string. b) (\<lambda>_. Inr ?raw)
             (Some ''example.com/site.css'')))
           = Html (rewriteHtml (\<lambda>_. None) ''S'' (sanitizeUrl ''example.com/site.css'')
                     (up_body ?raw))"
    using non_html_body_relayed_unchanged
      [where p = "''example.com/site.css''" and ext = "\<lambda>_. None" and fetch = "\<lambda>_. Inr ?raw"
         and response = ?raw and v = "[]" and script = "''S''"
         and toString = "\<lambda>b :: string. b", OF 1 2 refl] 4
    by blast
  from a b 5 show ?thesis by simp
qed

text \<open>
  Claim C4.  On the relayed response, a header that is neither on the allow-list nor set
  by the handler itself is absent; a header that the handler does not set itself is on
  the allow-list and carries a value of an upstream header of that name; every upstream
  header on the allow-list leaves a header of its name; and the headers that the handler
  sets (the CORS headers, \<open>X-Frame-Options: ALLOWALL\<close>, the permissive
  \<open>Content-Security-Policy\<close>, \<open>Cache-Control: no-cache, no-store, must-revalidate\<close> and
  the two \<open>X-\<close> headers) have their fixed values whatever the upstream headers are.
\<close>

theorem relayed_headers:
  assumes "p \<noteq> []" and "isValidUrl ext (sanitizeUrl p)"
    and "fetch (sanitizeUrl p) = Inr response"
    and "hs = res_headers (reply (proxy_handler ext script toString fetch (Some p)))"
  shows "(\<forall>k. k \<notin> set safeHeaderKeys \<and> k \<notin> set fixed_names \<longrightarrow> hs k = None)
    \<and> (\<forall>k v. k \<notin> set fixed_names \<and> hs k = Some v \<longrightarrow>
          k \<in> set safeHeaderKeys \<and> (\<exists>n. (n, v) \<in> set (up_headers response) \<and> toLowerCase n = k))
    \<and> (\<forall>n v. (n, v) \<in> set (up_headers response) \<and> toLowerCase n \<in> set safeHeaderKeys \<longrightarrow>
          hs (toLowerCase n) \<noteq> None)
    \<and> hs ''access-control-allow-origin'' = Some ''*''
    \<and> hs ''access-control-allow-methods'' = Some ''GET, POST, PUT, DELETE, OPTIONS, HEAD, PATCH''
    \<and> hs ''access-control-allow-headers''
        = Some ''Origin, X-Requested-With, Content-Type, Accept, Authorization, X-HTTP-Method-Override''
    \<and> hs ''access-control-allow-credentials'' = Some ''true''
    \<and> hs ''access-control-max-age'' = Some ''86400''
    \<and> hs ''x-frame-options'' = Some ''ALLOWALL''
    \<and> hs ''x-xss-protection'' = Some ''1; mode=block''
    \<and> hs ''x-content-type-options'' = Some ''nosniff''
    \<and> hs ''cache-control'' = Some ''no-cache, no-store, must-revalidate''
    \<and> hs ''content-security-policy'' = Some permissive_csp"
proof -
  let ?fw = "forward_headers (up_headers response) Map.empty"
  have hs: "hs = security_headers ?fw"
    using assms by (simp add: proxy_handler_relays relay_def)
  have a: "\<forall>k. k \<notin> set safeHeaderKeys \<and> k \<notin> set fixed_names \<longrightarrow> hs k = None"
    by (simp add: hs security_headers_other forward_headers_unsafe)
  have b: "\<forall>k v. k \<notin> set fixed_names \<and> hs k = Some v \<longrightarrow>
          k \<in> set safeHeaderKeys \<and> (\<exists>n. (n, v) \<in> set (up_headers response) \<and> toLowerCase n = k)"
  proof (intro allI impI)
    fix k v assume kv: "k \<notin> set fixed_names \<and> hs k = Some v"
    then have k: "k \<notin> set fixed_names" and h: "hs k = Some v" by simp_all
    have f: "?fw k = Some v"
      using h security_headers_other [OF k, of ?fw] by (simp add: hs)
    have "k \<in> set safeHeaderKeys"
    proof (rule ccontr)
      assume "k \<notin> set safeHeaderKeys"
      then have "?fw k = None" by (simp add: forward_headers_unsafe)
      with f show False by simp
    qed
    moreover from forward_headers_origin [OF f]
    have "\<exists>n. (n, v) \<in> set (up_headers response) \<and> toLowerCase n = k" by simp
    ultimately show "k \<in> set safeHeaderKeys
        \<and> (\<exists>n. (n, v) \<in> set (up_headers response) \<and> toLowerCase n = k)" ..
  qed
  have c: "\<forall>n v. (n, v) \<in> set (up_headers response) \<and> toLowerCase n \<in> set safeHeaderKeys \<longrightarrow>
          hs (toLowerCase n) \<noteq> None"
  proof (intro allI impI)
    fix n v assume nv: "(n, v) \<in> set (up_headers response) \<and> toLowerCase n \<in> set safeHeaderKeys"
    then have "(n, v) \<in> set (up_headers response)" and "toLowerCase n \<in> set safeHeaderKeys"
      by simp_all
    then have f: "?fw (toLowerCase n) \<noteq> None" by (rule forward_headers_present)
    show "hs (toLowerCase n) \<noteq> None"
    proof (cases "toLowerCase n \<in> set fixed_names")
      case True
      then show ?thesis
        by (auto simp: hs fixed_names_def security_headers_fixed)
    next
      case False
      with f show ?thesis by (simp add: hs security_headers_other)
    qed
  qed
  show ?thesis
    by (intro conjI a b c) (simp_all add: hs security_headers_fixed)
qed

text \<open>
  The theorem at an upstream response with \<open>x-powered-by\<close>, \<open>etag\<close>, \<open>x-frame-options\<close>
  and \<open>cache-control\<close>.
\<close>

theorem relayed_headers_witness:
  "(let hs = res_headers (reply (proxy_handler (\<lambda>_. None) ''SCRIPT'' (\<lambda>b :: string. b)
       (\<lambda>_. Inr \<lparr> up_headers = [(''x-powered-by'', ''PHP''), (''etag'', ''W/1''),
                                 (''x-frame-options'', ''DENY''), (''cache-control'', ''max-age=60'')],
                    up_body = ''body'' \<rparr>)
       (Some ''example.com'')))
    in hs ''x-powered-by'' = None \<and> hs ''etag'' = Some ''W/1''
     \<and> hs ''x-frame-options'' = Some ''ALLOWALL''
     \<and> hs ''cache-control'' = Some ''no-cache, no-store, must-revalidate''
     \<and> hs ''access-control-allow-origin'' = Some ''*''
     \<and> hs ''content-security-policy'' = Some permissive_csp)"
proof -
  let ?up = "\<lparr> up_headers = [(''x-powered-by'', ''PHP''), (''etag'', ''W/1''),
                                 (''x-frame-options'', ''DENY''), (''cache-control'', ''max-age=60'')],
                    up_body = ''body'' \<rparr>"
  let ?hs = "res_headers (reply (proxy_handler (\<lambda>_. None) ''SCRIPT'' (\<lambda>b :: string. b)
       (\<lambda>_. Inr ?up) (Some ''example.com'')))"
  have 1: "''example.com'' \<noteq> []" by simp
  have 2: "isValidUrl (\<lambda>_. None) (sanitizeUrl ''example.com'')" by code_simp
  note t = relayed_headers [where fetch = "\<lambda>_. Inr ?up" and script = "''SCRIPT''"
      and toString = "\<lambda>b :: string. b", OF 1 2 refl refl]
  have x: "''x-powered-by'' \<notin> set safeHeaderKeys \<and> ''x-powered-by'' \<notin> set fixed_names"
    by code_simp
  have e: "''etag'' \<notin> set fixed_names" "toLowerCase ''etag'' = ''etag''"
    "toLowerCase ''etag'' \<in> set safeHeaderKeys"
    by code_simp+
  have up: "up_headers ?up = [(''x-powered-by'', ''PHP''), (''etag'', ''W/1''),
                                 (''x-frame-options'', ''DENY''), (''cache-control'', ''max-age=60'')]"
    by simp
  have lows: "toLowerCase ''x-powered-by'' \<noteq> ''etag''" "toLowerCase ''x-frame-options'' \<noteq> ''etag''"
    "toLowerCase ''cache-control'' \<noteq> ''etag''"
    by code_simp+
  from t x have px: "?hs ''x-powered-by'' = None" by blast
  from t e have "?hs ''etag'' \<noteq> None"
    by (metis up list.set_intros(1) list.set_intros(2))
  then obtain v where v: "?hs ''etag'' = Some v" by blast
  with t e have "\<exists>n. (n, v) \<in> set (up_headers ?up) \<and> toLowerCase n = ''etag''" by blast
  then have "v = ''W/1''"
    using lows by (auto simp: up)
  with v have pe: "?hs ''etag'' = Some ''W/1''" by simp
  from t px pe show ?thesis unfolding Let_def by blast
qed

text \<open>
  Claim C10.  When the upstream response has no \<open>content-type\<close> header, the handler takes
  the content type to be \<open>text/html\<close> and sends the body as rewritten by the HTML
  rewriter, script injection included, not the bytes.
\<close>

theorem missing_content_type_is_html:
  assumes "p \<noteq> []" and "isValidUrl ext (sanitizeUrl p)"
    and "fetch (sanitizeUrl p) = Inr response"
    and "headers_get (up_headers response) ''content-type'' = None"
  shows "contentType response = ''text/html''
       \<and> res_sent (reply (proxy_handler ext script toString fetch (Some p)))
         = Html (rewriteHtml ext script (sanitizeUrl p) (toString (up_body response)))"
proof -
  have ct: "contentType response = ''text/html''"
    using assms(4) by (simp add: contentType_def)
  moreover have "sublist ''text/html'' ''text/html''" by simp
  ultimately show ?thesis
    using assms by (simp add: proxy_handler_relays relay_def)
qed

text \<open>
  The theorem at a body without content type: the script is put before \<open></head>\<close> and
  \<open>window.location\<close> is prefixed.
\<close>

theorem missing_content_type_is_html_witness:
  "res_sent (reply (proxy_handler (\<lambda>_. None) ''SCRIPT'' (\<lambda>b :: string. b)
       (\<lambda>_. Inr \<lparr> up_headers = [(''etag'', ''W/1'')], up_body = ''x</head>window.location'' \<rparr>)
       (Some ''example.com/data.bin'')))
   = Html (''xSCRIPT</head>window.parent.postMessage('' @ [squote] @ ''navigate:'' @ [squote] @
           '', '' @ [squote] @ ''*'' @ [squote] @ ''); window.location'')"
proof -
  have 1: "''example.com/data.bin'' \<noteq> []" by simp
  have 2: "isValidUrl (\<lambda>_. None) (sanitizeUrl ''example.com/data.bin'')" by code_simp
  have 3: "headers_get (up_headers \<lparr> up_headers = [(''etag'', ''W/1'')], up_body = ''x</head>window.location'' \<rparr>)
             ''content-type'' = None"
    by code_simp
  have 4: "rewriteHtml (\<lambda>_. None) ''SCRIPT'' (sanitizeUrl ''example.com/data.bin'') ''x</head>window.location''
     = ''xSCRIPT</head>window.parent.postMessage('' @ [squote] @ ''navigate:'' @ [squote] @
           '', '' @ [squote] @ ''*'' @ [squote] @ ''); window.location''"
    by code_simp
  show ?thesis
    using missing_content_type_is_html [OF 1 2 refl 3, of "''SCRIPT''" "\<lambda>b :: string. b"]
    by (simp add: 4)
qed

section \<open>The routes of the recent searches: properties\<close>





lemma digit_not_space: "is_digit c \<Longrightarrow> \<not> is_space c"
  by (auto simp: is_digit_def is_space_def)

lemma digit_code: "is_digit c \<Longrightarrow> c \<noteq> CHR ''-'' \<and> c \<noteq> CHR ''+'' \<and> c \<noteq> CHR ''x'' \<and> c \<noteq> CHR ''X''"
  by (auto simp: is_digit_def code_def)

lemma digits_fold_nonneg:
  "list_all is_digit s \<Longrightarrow> 0 \<le> a \<Longrightarrow> 0 \<le> foldl (\<lambda>a c. 10 * a + (code c - 48)) a s"
  by (induction s arbitrary: a) (auto simp: is_digit_def)

lemma digits_value_nonneg: "numeric_id s \<Longrightarrow> 0 \<le> digits_value s"
  by (simp add: numeric_id_def digits_value_def digits_fold_nonneg)

lemma parseInt_numeric:
  assumes "numeric_id s" and "digits_value s \<le> 9007199254740992"
  shows "parseInt s = Num (digits_value s)"
proof -
  from assms(1) obtain c cs where s: "s = c # cs" and c: "is_digit c" and cs: "list_all is_digit cs"
    by (cases s) (auto simp: numeric_id_def)
  have sp: "dropWhile is_space s = s"
    using c by (simp add: s digit_not_space)
  have sign: "\<not> prefix ''-'' s" "\<not> prefix ''+'' s"
    using digit_code [OF c] by (auto simp: s)
  have hex: "\<not> prefix ''0x'' s" "\<not> prefix ''0X'' s"
  proof -
    show "\<not> prefix ''0x'' s"
    proof
      assume "prefix ''0x'' s"
      then obtain t where "cs = CHR ''x'' # t" by (auto simp: s prefix_def)
      with cs have "is_digit (CHR ''x'')" by simp
      with digit_code show False by blast
    qed
    show "\<not> prefix ''0X'' s"
    proof
      assume "prefix ''0X'' s"
      then obtain t where "cs = CHR ''X'' # t" by (auto simp: s prefix_def)
      with cs have "is_digit (CHR ''X'')" by simp
      with digit_code show False by blast
    qed
  qed
  have all: "takeWhile is_digit s = s"
    using c cs by (simp add: s takeWhile_eq_all_conv list_all_iff)
  have ne: "s \<noteq> []" by (simp add: s)
  show ?thesis
    using assms(2) ne
    by (simp add: parseInt_def sp sign hex all Let_def)
qed

text \<open>
  Claim C9, as stated, fails: the id \<open>12abc\<close> is not numeric, and the handler does not
  answer 400 but deletes the row 12 and answers with success.
\<close>

theorem prefix_of_digits_is_accepted:
  "\<not> numeric_id ''12abc''
   \<and> delete_recent_search
        \<lparr> rows = [\<lparr> rs_id = 12, rs_url = ''https://foo.com'', rs_title = None, rs_favicon = None,
                    rs_visited_at = 100, rs_user_id = None \<rparr>], next_id = 13 \<rparr> ''12abc''
     = (\<lparr> rows = [], next_id = 13 \<rparr>, Success)"
  by code_simp

text \<open>
  Claim C9, amended.  The handler answers 400 exactly when \<open>parseInt\<close> of the id is
  \<open>NaN\<close>, and then leaves the table as it is.  When \<open>parseInt\<close> gives a number \<open>n\<close> within
  the 32 bits of the column, the handler deletes the rows with the id \<open>n\<close> and answers
  with success; so it does for every numeric id (a string of decimal digits) up to
  \<open>2147483647\<close>, with \<open>n\<close> the value of the digits.  When \<open>parseInt\<close> gives a number outside
  the 32 bits of the column, the handler answers 500 and leaves the table as it is.
\<close>

theorem delete_by_parsed_id:
  "(snd (delete_recent_search db idParam) = Error_message 400 ''Invalid ID provided''
      \<longleftrightarrow> parseInt idParam = NaN)
   \<and> (parseInt idParam = NaN \<longrightarrow> fst (delete_recent_search db idParam) = db)
   \<and> (parseInt idParam = Num n \<and> int4 n \<longrightarrow>
        delete_recent_search db idParam
          = (db \<lparr> rows := filter (\<lambda>r. rs_id r \<noteq> n) (rows db) \<rparr>, Success))
   \<and> (numeric_id idParam \<and> digits_value idParam \<le> 2147483647 \<longrightarrow>
        delete_recent_search db idParam
          = (db \<lparr> rows := filter (\<lambda>r. rs_id r \<noteq> digits_value idParam) (rows db) \<rparr>, Success))
   \<and> ((parseInt idParam = Num n \<and> \<not> int4 n) \<or> parseInt idParam = Inexact \<longrightarrow>
        delete_recent_search db idParam
          = (db, Error_message 500 ''Failed to delete recent search''))"
proof (intro conjI impI)
  show "(snd (delete_recent_search db idParam) = Error_message 400 ''Invalid ID provided'')
        = (parseInt idParam = NaN)"
    by (cases "parseInt idParam") (simp_all add: delete_recent_search_def)
next
  assume "parseInt idParam = NaN"
  then show "fst (delete_recent_search db idParam) = db"
    by (simp add: delete_recent_search_def)
next
  assume "parseInt idParam = Num n \<and> int4 n"
  then show "delete_recent_search db idParam
          = (db \<lparr> rows := filter (\<lambda>r. rs_id r \<noteq> n) (rows db) \<rparr>, Success)"
    by (simp add: delete_recent_search_def)
next
  assume a: "numeric_id idParam \<and> digits_value idParam \<le> 2147483647"
  then have "parseInt idParam = Num (digits_value idParam)"
    by (simp add: parseInt_numeric)
  moreover have "0 \<le> digits_value idParam"
    using a by (simp add: digits_value_nonneg)
  ultimately show "delete_recent_search db idParam
          = (db \<lparr> rows := filter (\<lambda>r. rs_id r \<noteq> digits_value idParam) (rows db) \<rparr>, Success)"
    using a by (simp add: delete_recent_search_def int4_def)
next
  assume "(parseInt idParam = Num n \<and> \<not> int4 n) \<or> parseInt idParam = Inexact"
  then show "delete_recent_search db idParam
          = (db, Error_message 500 ''Failed to delete recent search'')"
    by (auto simp: delete_recent_search_def)
qed

text \<open>The theorem at the ids \<open>12\<close>, \<open>abc\<close> and \<open>2147483648\<close>.\<close>

theorem delete_by_parsed_id_witness:
  "delete_recent_search
     \<lparr> rows = [\<lparr> rs_id = 7, rs_url = ''https://a.com'', rs_title = None, rs_favicon = None,
                 rs_visited_at = 1, rs_user_id = None \<rparr>,
               \<lparr> rs_id = 12, rs_url = ''https://b.com'', rs_title = None, rs_favicon = None,
                 rs_visited_at = 2, rs_user_id = None \<rparr>], next_id = 13 \<rparr> ''12''
   = (\<lparr> rows = [\<lparr> rs_id = 7, rs_url = ''https://a.com'', rs_title = None, rs_favicon = None,
                   rs_visited_at = 1, rs_user_id = None \<rparr>], next_id = 13 \<rparr>, Success)
   \<and> delete_recent_search \<lparr> rows = [], next_id = 1 \<rparr> ''abc''
   = (\<lparr> rows = [], next_id = 1 \<rparr>, Error_message 400 ''Invalid ID provided'')
   \<and> delete_recent_search \<lparr> rows = [], next_id = 1 \<rparr> ''2147483648''
   = (\<lparr> rows = [], next_id = 1 \<rparr>, Error_message 500 ''Failed to delete recent search'')"
proof -
  let ?db = "\<lparr> rows = [\<lparr> rs_id = 7, rs_url = ''https://a.com'', rs_title = None, rs_favicon = None,
                 rs_visited_at = 1, rs_user_id = None \<rparr>,
               \<lparr> rs_id = 12, rs_url = ''https://b.com'', rs_title = None, rs_favicon = None,
                 rs_visited_at = 2, rs_user_id = None \<rparr>], next_id = 13 \<rparr>"
  have 1: "numeric_id ''12'' \<and> digits_value ''12'' \<le> 2147483647" by code_simp
  have 2: "digits_value ''12'' = 12" by code_simp
  have 3: "parseInt ''abc'' = NaN" by code_simp
  have 4: "parseInt ''12'' = Num 12 \<and> int4 12" by code_simp
  have 5: "parseInt ''2147483648'' = Num 2147483648 \<and> \<not> int4 2147483648" by code_simp
  note a = delete_by_parsed_id [of ?db "''12''" 12]
  note b = delete_by_parsed_id [of "\<lparr> rows = [], next_id = 1 \<rparr>" "''abc''" 0]
  note c = delete_by_parsed_id [of "\<lparr> rows = [], next_id = 1 \<rparr>" "''2147483648''" 2147483648]
  from a 1 2 4 have "delete_recent_search ?db ''12''
     = (?db \<lparr> rows := filter (\<lambda>r. rs_id r \<noteq> 12) (rows ?db) \<rparr>, Success)"
    by simp
  moreover from b 3 have "delete_recent_search \<lparr> rows = [], next_id = 1 \<rparr> ''abc''
     = (\<lparr> rows = [], next_id = 1 \<rparr>, Error_message 400 ''Invalid ID provided'')"
    by (metis prod.collapse)
  moreover from c 5 have "delete_recent_search \<lparr> rows = [], next_id = 1 \<rparr> ''2147483648''
     = (\<lparr> rows = [], next_id = 1 \<rparr>, Error_message 500 ''Failed to delete recent search'')"
    by blast
  ultimately show ?thesis by simp
qed

section \<open>The pass over the srcset lists\<close>

lemma strip_keeps_head:
  assumes "\<not> P x"
  shows "\<exists>ys. rev (dropWhile P (rev (dropWhile P (x # t)))) = x # ys"
proof -
  have "dropWhile P (x # t) = x # t" using assms by simp
  moreover have "\<exists>ys. rev (dropWhile P (rev (x # t))) = x # ys"
  proof (cases "\<forall>y \<in> set (rev t). P y")
    case True
    then have "dropWhile P (rev t @ [x]) = dropWhile P [x]"
      by (intro dropWhile_append2) auto
    then have "dropWhile P (rev t @ [x]) = [x]"
      using assms by simp
    then show ?thesis by simp
  next
    case False
    then have "dropWhile P (rev t @ [x]) = dropWhile P (rev t) @ [x]"
      by (auto simp: dropWhile_append1)
    then show ?thesis by simp
  qed
  ultimately show ?thesis by simp
qed

lemma slash_class:
  "\<not> c0_or_space (CHR ''/'')" "\<not> tab_or_newline (CHR ''/'')" "\<not> is_alpha (CHR ''/'')"
  by (simp_all add: c0_or_space_def tab_or_newline_def is_alpha_def is_upper_def is_lower_def code_def)

text \<open>A string that begins with \<open>/\<close> has no scheme: \<open>new URL\<close> throws.\<close>

lemma URL_new_root_relative: "prefix ''/'' u \<Longrightarrow> URL_new ext u = None"
proof -
  assume "prefix ''/'' u"
  then obtain t where u: "u = CHR ''/'' # t" by (auto simp: prefix_def)
  obtain ys where "rev (dropWhile c0_or_space (rev (dropWhile c0_or_space (CHR ''/'' # t)))) = CHR ''/'' # ys"
    using strip_keeps_head [of c0_or_space "CHR ''/''" t, OF slash_class(1)] by blast
  then have "URL_parse u = TypeError"
    by (simp add: URL_parse_def u slash_class)
  then show ?thesis by (simp add: URL_new_def)
qed

text \<open>
  Claim C5 says that an entry of a \<open>srcset\<close> list that begins with \<open>/\<close> is resolved
  against the origin of the page and proxied.  The pass does not do so: in that branch
  \<open>new URL\<close> is called on the entry's own URL, which has no scheme, the constructor throws,
  and the entry is returned as it was.
\<close>

theorem srcset_root_relative_entry_unchanged:
  assumes "prefix ''/'' (hd (split_ws (trim src)))"
  shows "srcset_entry ext src = src"
proof -
  let ?url = "hd (split_ws (trim src))"
  from assms obtain t where "?url = CHR ''/'' # t" by (auto simp: prefix_def)
  then have "\<not> prefix ''http'' ?url" by simp
  moreover have "URL_new ext ?url = None" using assms by (rule URL_new_root_relative)
  ultimately show ?thesis
    using assms by (simp add: srcset_entry_def Let_def)
qed

text \<open>
  The theorem at the entry \<open>/a.png 1x\<close>, and the pass on a list of a root-relative and an
  absolute entry: only the absolute one is proxied, with its descriptor kept.
\<close>

theorem srcset_root_relative_entry_unchanged_witness:
  "srcset_entry (\<lambda>_. Some \<lparr>protocol = ''https:'', host = ''example.com'', hostname = ''example.com''\<rparr>)
     ''/a.png 1x'' = ''/a.png 1x''
   \<and> rewrite_srcset (\<lambda>_. Some \<lparr>protocol = ''https:'', host = ''example.com'', hostname = ''example.com''\<rparr>)
       (''<img srcset='' @ [dquote] @ ''/a.png 1x, https://cdn.x.com/b.png 2x'' @ [dquote] @ ''>'')
     = ''<img srcset='' @ [dquote] @
         ''/a.png 1x, /api/proxy?url=https%3A%2F%2Fcdn.x.com%2Fb.png 2x'' @ [dquote] @ ''>''"
proof -
  have 1: "prefix ''/'' (hd (split_ws (trim ''/a.png 1x'')))" by code_simp
  have 2: "rewrite_srcset (\<lambda>_. Some \<lparr>protocol = ''https:'', host = ''example.com'', hostname = ''example.com''\<rparr>)
       (''<img srcset='' @ [dquote] @ ''/a.png 1x, https://cdn.x.com/b.png 2x'' @ [dquote] @ ''>'')
     = ''<img srcset='' @ [dquote] @
         ''/a.png 1x, /api/proxy?url=https%3A%2F%2Fcdn.x.com%2Fb.png 2x'' @ [dquote] @ ''>''"
    by code_simp
  show ?thesis
    using srcset_root_relative_entry_unchanged [OF 1] 2 by simp
qed

section \<open>The rewriter as a whole\<close>

text \<open>
  Claim C1 says that the output of the rewriter holds the attribute with the value
  \<open>/api/proxy?url=\<close> followed by the percent-encoding of the absolute URL.  The first
  pass produces it, but its value begins with \<open>/\<close>, so the pass over the root-relative
  values takes it for a path of the page's host and encodes it again: for
  \<open><img src="https://cdn.x.com/a.png">\<close> on the page \<open>https://x.com\<close> the output does not
  hold \<open>/api/proxy?url=https%3A%2F%2Fcdn.x.com%2Fa.png\<close>.
\<close>

theorem absolute_attribute_proxied_twice:
  "rewrite_attributes (''<img src='' @ [dquote] @ ''https://cdn.x.com/a.png'' @ [dquote] @ ''>'')
     = ''<img src='' @ [dquote] @ ''/api/proxy?url=https%3A%2F%2Fcdn.x.com%2Fa.png'' @ [dquote] @ ''>''
   \<and> rewriteHtml ext script ''https://x.com''
       (''<img src='' @ [dquote] @ ''https://cdn.x.com/a.png'' @ [dquote] @ ''>'')
     = ''<img src='' @ [dquote] @
         ''/api/proxy?url=https%3A%2F%2Fx.com%2Fapi%2Fproxy%3Furl%3Dhttps%253A%252F%252Fcdn.x.com%252Fa.png'' @
         [dquote] @ ''>''
   \<and> \<not> sublist (''/api/proxy?url='' @ encodeURIComponent ''https://cdn.x.com/a.png'')
         (rewriteHtml ext script ''https://x.com''
            (''<img src='' @ [dquote] @ ''https://cdn.x.com/a.png'' @ [dquote] @ ''>''))"
  by code_simp

text \<open>
  Claim C7 says that an attribute value of the form \<open>/api/proxy?url=...\<close> is left unchanged
  by the rewriter.  It is not: the value begins with \<open>/\<close>, and the pass over the
  root-relative values resolves it against the page and encodes it again.
\<close>

theorem proxied_attribute_encoded_again:
  "rewriteHtml ext script ''http://x.y''
       (''<a href='' @ [dquote] @ ''/api/proxy?url=http%3A%2F%2Fa.b'' @ [dquote] @ ''>'')
     = ''<a href='' @ [dquote] @
         ''/api/proxy?url=http%3A%2F%2Fx.y%2Fapi%2Fproxy%3Furl%3Dhttp%253A%252F%252Fa.b'' @
         [dquote] @ ''>''"
  by code_simp

section \<open>The pass over the absolute attribute values\<close>

lemma iprefix_append: "iprefix p u \<Longrightarrow> iprefix p (u @ rest)"
  by (simp add: iprefix_def)

lemma iprefix_append_iff: "length p \<le> length u \<Longrightarrow> iprefix p (u @ rest) = iprefix p u"
  by (simp add: iprefix_def)

lemma iprefix_nth:
  assumes "iprefix p u" and "i < length p"
  shows "ascii_upper (u ! i) = ascii_upper (p ! i)"
proof -
  from assms(1) have e: "map ascii_upper (take (length p) u) = map ascii_upper p"
    and l: "length p \<le> length u"
    unfolding iprefix_def by blast+
  have "ascii_upper (u ! i) = map ascii_upper (take (length p) u) ! i"
    using assms(2) l by simp
  also have "\<dots> = map ascii_upper p ! i" by (simp only: e)
  also have "\<dots> = ascii_upper (p ! i)" using assms(2) by simp
  finally show ?thesis .
qed

lemma http_not_https: "iprefix ''http://'' u \<Longrightarrow> \<not> iprefix ''https://'' u"
proof
  assume h: "iprefix ''http://'' u" and s: "iprefix ''https://'' u"
  have "ascii_upper (u ! 4) = ascii_upper (''http://'' ! 4)"
    using h by (rule iprefix_nth) simp
  moreover have "ascii_upper (u ! 4) = ascii_upper (''https://'' ! 4)"
    using s by (rule iprefix_nth) simp
  moreover have "ascii_upper (''http://'' ! 4) \<noteq> ascii_upper (''https://'' ! 4)"
    by code_simp
  ultimately show False by simp
qed

lemma abs_url_len_whole:
  assumes u: "(iprefix ''https://'' u \<and> 8 < length u) \<or> (iprefix ''http://'' u \<and> 7 < length u)"
    and nq: "\<forall>c \<in> set u. \<not> is_quote c" and q': "is_quote q'"
  shows "abs_url_len (u @ q' # post) = Some (length u)"
proof -
  have run: "takeWhile (\<lambda>c. \<not> is_quote c) (drop k u @ q' # post) = drop k u" for k
    using nq q' by (intro takeWhile_run) (auto dest: in_set_dropD)
  show ?thesis
  proof (cases "iprefix ''https://'' u")
    case True
    with u http_not_https have len: "8 < length u" by blast
    from True have "iprefix ''https://'' (u @ q' # post)" by (rule iprefix_append)
    then show ?thesis
      using len by (simp add: abs_url_len_def run)
  next
    case False
    with u have h: "iprefix ''http://'' u" and len: "7 < length u" by auto
    have "\<not> iprefix ''https://'' (u @ q' # post)"
    proof (cases "8 \<le> length u")
      case True
      then show ?thesis using False by (simp add: iprefix_append_iff)
    next
      case short: False
      with len have l8: "length u = 8" by simp
      show ?thesis
      proof
        assume "iprefix ''https://'' (u @ q' # post)"
        then have "iprefix ''https://'' u" using l8 by (simp add: iprefix_def)
        with False show False ..
      qed
    qed
    moreover from h have "iprefix ''http://'' (u @ q' # post)" by (rule iprefix_append)
    ultimately show ?thesis
      using len by (simp add: abs_url_len_def run)
  qed
qed


lemma names_no_quote: "\<forall>a \<in> set urlAttributes. \<forall>c \<in> set (map ascii_upper a). \<not> is_quote c"
  by code_simp

lemma upper_quote: "is_quote c \<Longrightarrow> ascii_upper c = c"
  by (auto simp: is_quote_def ascii_upper_def is_lower_def code_def)

lemma name_no_quote:
  assumes "a \<in> set urlAttributes" and "map ascii_upper nm = map ascii_upper a"
  shows "\<forall>c \<in> set nm. \<not> is_quote c"
proof
  fix c assume c: "c \<in> set nm"
  show "\<not> is_quote c"
  proof
    assume q: "is_quote c"
    from c have "ascii_upper c \<in> set (map ascii_upper nm)" by simp
    then have "c \<in> set (map ascii_upper a)" using q assms(2) by (simp add: upper_quote)
    with names_no_quote assms(1) q show False by blast
  qed
qed

lemma search_skips: "\<forall>c \<in> set pre. \<not> is_quote c \<Longrightarrow> search_quoted_url (pre @ t) = search_quoted_url t"
  by (induction pre) auto

lemma attribute_head:
  assumes a: "a \<in> set urlAttributes" and nm: "map ascii_upper nm = map ascii_upper a"
    and q: "is_quote q" and q': "is_quote q'"
    and u: "(iprefix ''https://'' u \<and> 8 < length u) \<or> (iprefix ''http://'' u \<and> 7 < length u)"
    and nq: "\<forall>c \<in> set u. \<not> is_quote c"
  shows "attributePattern (nm @ CHR ''='' # q # u @ q' # post)
         = Some (nm @ CHR ''='' # q # u @ [q'], nm @ [CHR ''='', q], [q'])"
    (is "attributePattern ?s = Some ?T")
proof -
  let ?f = "\<lambda>name.
          if iprefix name ?s then
            (case drop (length name) ?s of
               e # q # t \<Rightarrow>
                 if e = CHR ''='' \<and> is_quote q then
                   (case abs_url_len t of
                      None \<Rightarrow> None
                    | Some n \<Rightarrow>
                        Some (take (length name + 2 + n + 1) ?s,
                              take (length name + 2) ?s,
                              [t ! n]))
                 else None
             | _ \<Rightarrow> None)
          else None"
  have len_u: "abs_url_len (u @ q' # post) = Some (length u)"
    using u nq q' by (rule abs_url_len_whole)
  have tk: "take (3 + length u) (CHR ''='' # q # u @ q' # post) = CHR ''='' # q # u @ [q']"
    by (simp add: eval_nat_numeral)
  have same: "?f n = Some ?T" if "iprefix n ?s" "length n = length nm" for n
    using that q by (simp add: len_u nth_append tk)
  have len: "length a = length nm" using nm by (metis length_map)
  have "iprefix a ?s" using nm by (rule iprefix_same)
  then have fa: "?f a = Some ?T" using len by (rule same)
  have other: "?f z = None \<or> ?f z = Some ?T" if z: "z \<in> set urlAttributes" for z
  proof (cases "iprefix z ?s")
    case False
    then show ?thesis by simp
  next
    case True
    show ?thesis
    proof (cases "\<exists>r. drop (length z) ?s = CHR ''='' # r")
      case False
      then have "?f z = None"
        by (auto split: list.splits)
      then show ?thesis ..
    next
      case e: True
      then obtain r where "drop (length z) ?s = CHR ''='' # r" by blast
      with z a nm True have "length z = length nm"
        by (rule name_end)
      with True have "?f z = Some ?T" by (rule same)
      then show ?thesis ..
    qed
  qed
  have "first_some ?f urlAttributes = Some ?T"
    using a fa other by (rule first_some_unique)
  then show ?thesis by (simp add: attributePattern_def)
qed

lemma attribute_callback_head:
  assumes a: "a \<in> set urlAttributes" and nm: "map ascii_upper nm = map ascii_upper a"
    and q: "is_quote q" and q': "is_quote q'"
    and u: "(iprefix ''https://'' u \<and> 8 < length u) \<or> (iprefix ''http://'' u \<and> 7 < length u)"
    and nq: "\<forall>c \<in> set u. \<not> is_quote c"
  shows "attribute_callback (nm @ CHR ''='' # q # u @ [q']) (nm @ [CHR ''='', q]) [q']
         = nm @ CHR ''='' # q # proxied u @ [q']"
proof -
  have "\<forall>c \<in> set (nm @ [CHR ''='']). \<not> is_quote c"
    using name_no_quote [OF a nm] by (simp add: is_quote_def)
  then have "search_quoted_url ((nm @ [CHR ''='']) @ q # u @ [q']) = search_quoted_url (q # u @ [q'])"
    by (rule search_skips)
  moreover have "abs_url_len (u @ q' # []) = Some (length u)"
    using u nq q' by (rule abs_url_len_whole)
  ultimately have "search_quoted_url (nm @ CHR ''='' # q # u @ [q']) = Some u"
    using q by simp
  moreover have "u \<noteq> []" using u by auto
  ultimately show ?thesis by (simp add: attribute_callback_def)
qed

text \<open>
  The pass over the absolute attribute values, on its own, does what claim C1 describes:
  an attribute of the monitored set (its name in any case) whose quoted value is
  \<open>http://\<close> or \<open>https://\<close> followed by at least one character is replaced by the same
  attribute with the value \<open>/api/proxy?url=\<close> followed by the percent-encoding of the URL,
  and decoding the parameter gives the URL back.  The attribute stands behind a text in
  which no match of the pattern begins.
\<close>

theorem absolute_attribute_pass:
  assumes a: "a \<in> set urlAttributes" and nm: "map ascii_upper nm = map ascii_upper a"
    and q: "is_quote q" and q': "is_quote q'"
    and u: "(iprefix ''https://'' u \<and> 8 < length u) \<or> (iprefix ''http://'' u \<and> 7 < length u)"
    and nq: "\<forall>c \<in> set u. \<not> is_quote c"
    and pre: "\<forall>s. s \<noteq> [] \<and> suffix s pre \<longrightarrow>
               attributePattern (s @ nm @ CHR ''='' # q # u @ q' # post) = None"
  shows "rewrite_attributes (pre @ nm @ CHR ''='' # q # u @ q' # post)
           = pre @ nm @ CHR ''='' # q # (''/api/proxy?url='' @ encodeURIComponent u) @
               q' # rewrite_attributes post
         \<and> decodeURIComponent (encodeURIComponent u) = Decoded u"
proof
  let ?m = "\<lambda>s. case attributePattern s of
                  None \<Rightarrow> None
                | Some (match, prefx, suffx) \<Rightarrow>
                    Some (length match, attribute_callback match prefx suffx)"
  let ?occ = "nm @ CHR ''='' # q # u @ [q']"
  let ?new = "nm @ CHR ''='' # q # (''/api/proxy?url='' @ encodeURIComponent u) @ [q']"
  have head: "attributePattern (?occ @ post) = Some (?occ, nm @ [CHR ''='', q], [q'])"
    using attribute_head [OF a nm q q' u nq, of post] by simp
  have cb: "attribute_callback ?occ (nm @ [CHR ''='', q]) [q'] = ?new"
    using attribute_callback_head [OF a nm q q' u nq] by (simp add: proxied_def)
  have "?m (?occ @ post) = Some (length ?occ, ?new)"
    by (simp only: head cb option.case prod.case)
  then have at_occ: "gsub ?m (?occ @ post) = ?new @ gsub ?m post"
    by (rule gsub_match) simp
  have "gsub ?m (pre @ ?occ @ post) = pre @ gsub ?m (?occ @ post)"
  proof (rule gsub_skip)
    fix s :: string assume "s \<noteq> []" "suffix s pre"
    with pre have "attributePattern (s @ ?occ @ post) = None" by simp
    then show "?m (s @ ?occ @ post) = None" by simp
  qed
  with at_occ have "gsub ?m (pre @ ?occ @ post) = pre @ ?new @ gsub ?m post"
    by simp
  then show "rewrite_attributes (pre @ nm @ CHR ''='' # q # u @ q' # post)
           = pre @ nm @ CHR ''='' # q # (''/api/proxy?url='' @ encodeURIComponent u) @
               q' # rewrite_attributes post"
    by (simp add: rewrite_attributes_def)
next
  show "decodeURIComponent (encodeURIComponent u) = Decoded u"
    by (rule decode_encode)
qed

text \<open>The theorem at \<open><img SRC='https://cdn.x.com/a.png'>\<close>.\<close>

theorem absolute_attribute_pass_witness:
  "rewrite_attributes (''<img SRC='' @ [squote] @ ''https://cdn.x.com/a.png'' @ [squote] @ ''>'')
     = ''<img SRC='' @ [squote] @ ''/api/proxy?url=https%3A%2F%2Fcdn.x.com%2Fa.png'' @
         [squote] @ ''>''
   \<and> decodeURIComponent ''https%3A%2F%2Fcdn.x.com%2Fa.png'' = Decoded ''https://cdn.x.com/a.png''"
proof -
  let ?rest = "''SRC'' @ CHR ''='' # squote # ''https://cdn.x.com/a.png'' @ squote # ''>''"
  have a: "''src'' \<in> set urlAttributes" by code_simp
  have nm: "map ascii_upper ''SRC'' = map ascii_upper ''src''" by code_simp
  have q: "is_quote squote" by code_simp
  have u: "(iprefix ''https://'' ''https://cdn.x.com/a.png'' \<and> 8 < length ''https://cdn.x.com/a.png'')
      \<or> (iprefix ''http://'' ''https://cdn.x.com/a.png'' \<and> 7 < length ''https://cdn.x.com/a.png'')"
    by code_simp
  have nq: "\<forall>c \<in> set ''https://cdn.x.com/a.png''. \<not> is_quote c" by code_simp
  have 1: "attributePattern ('' '' @ ?rest) = None" by code_simp
  have 2: "attributePattern (''g '' @ ?rest) = None" by code_simp
  have 3: "attributePattern (''mg '' @ ?rest) = None" by code_simp
  have 4: "attributePattern (''img '' @ ?rest) = None" by code_simp
  have 5: "attributePattern (''<img '' @ ?rest) = None" by code_simp
  have pre: "\<forall>s. s \<noteq> [] \<and> suffix s ''<img '' \<longrightarrow> attributePattern (s @ ?rest) = None"
  proof (intro allI impI)
    fix s :: string assume s: "s \<noteq> [] \<and> suffix s ''<img ''"
    then have "s = '' '' \<or> s = ''g '' \<or> s = ''mg '' \<or> s = ''img '' \<or> s = ''<img ''"
      by (auto simp: suffix_Cons)
    with 1 2 3 4 5 show "attributePattern (s @ ?rest) = None" by blast
  qed
  have enc: "encodeURIComponent ''https://cdn.x.com/a.png'' = ''https%3A%2F%2Fcdn.x.com%2Fa.png''"
    by code_simp
  have post: "rewrite_attributes ''>'' = ''>''" by code_simp
  show ?thesis
    using absolute_attribute_pass [OF a nm q q u nq pre]
    by (simp add: enc post)
qed

text \<open>Percent-decoding undoes percent-encoding, for every string.\<close>

theorem percent_encoding_round_trip:
  "decodeURIComponent (encodeURIComponent s) = Decoded s"
  by (rule decode_encode)

section \<open>The absolute entries of a srcset list\<close>

lemma split_ws_nonempty: "split_ws s \<noteq> []"
  by (induction s rule: split_ws.induct) (auto split: list.splits)

lemma split_ws_word:
  "\<forall>c \<in> set w. \<not> is_space c \<Longrightarrow> split_ws (w @ t) = (w @ hd (split_ws t)) # tl (split_ws t)"
proof (induction w)
  case Nil
  show ?case using split_ws_nonempty [of t] by simp
next
  case (Cons c w)
  then show ?case by (simp split: list.splits)
qed

lemma split_ws_gap:
  assumes "sep \<noteq> []" and "\<forall>c \<in> set sep. is_space c" and "t = [] \<or> \<not> is_space (hd t)"
  shows "split_ws (sep @ t) = [] # split_ws t"
proof -
  from assms(1) obtain c cs where sep: "sep = c # cs" by (cases sep) auto
  have "dropWhile is_space (cs @ t) = dropWhile is_space t"
    using assms(2) by (intro dropWhile_append2) (auto simp: sep)
  also have "\<dots> = t" using assms(3) by (cases t) auto
  finally show ?thesis using assms(2) by (simp add: sep)
qed

lemma trim_padded:
  assumes "\<forall>c \<in> set lead. is_space c" and "\<forall>c \<in> set trail. is_space c"
    and "body \<noteq> []" and "\<not> is_space (hd body)" and "\<not> is_space (last body)"
  shows "trim (lead @ body @ trail) = body"
proof -
  have "dropWhile is_space (lead @ body @ trail) = dropWhile is_space (body @ trail)"
    using assms(1) by (intro dropWhile_append2) auto
  also have "\<dots> = body @ trail" using assms(3,4) by (cases body) auto
  finally have 1: "dropWhile is_space (lead @ body @ trail) = body @ trail" .
  have "dropWhile is_space (rev trail @ rev body) = dropWhile is_space (rev body)"
    using assms(2) by (intro dropWhile_append2) auto
  also have "\<dots> = rev body"
    using assms(3,5) by (cases "rev body") (auto simp: last_rev [symmetric] hd_rev)
  finally show ?thesis by (simp add: trim_def 1)
qed

text \<open>
  The part of claim C5 that holds: an entry of a \<open>srcset\<close> list whose URL begins with
  \<open>http\<close> becomes \<open>/api/proxy?url=\<close> followed by the percent-encoding of the URL, then a
  space and the descriptor as it was written when there is one; the white space around
  the entry and between its two parts is dropped.
\<close>

theorem srcset_absolute_entry_proxied:
  assumes lead: "\<forall>c \<in> set lead. is_space c" and trail: "\<forall>c \<in> set trail. is_space c"
    and sep: "sep \<noteq> []" "\<forall>c \<in> set sep. is_space c"
    and url: "prefix ''http'' url" "\<forall>c \<in> set url. \<not> is_space c"
    and desc: "descriptor \<noteq> []" "\<forall>c \<in> set descriptor. \<not> is_space c"
  shows "srcset_entry ext (lead @ url @ sep @ descriptor @ trail)
           = ''/api/proxy?url='' @ encodeURIComponent url @ '' '' @ descriptor
       \<and> srcset_entry ext (lead @ url @ trail) = ''/api/proxy?url='' @ encodeURIComponent url"
proof
  from url(1) have u: "url \<noteq> []" by auto
  have hl: "\<not> is_space (hd url)" "\<not> is_space (last url)"
    using u url(2) by simp_all
  have "trim (lead @ (url @ sep @ descriptor) @ trail) = url @ sep @ descriptor"
    using lead trail u hl desc
    by (intro trim_padded) (simp_all add: last_in_set)
  then have t: "trim (lead @ url @ sep @ descriptor @ trail) = url @ sep @ descriptor" by simp
  have d: "split_ws descriptor = [descriptor]"
    using split_ws_word [OF desc(2), of "[]"] by simp
  have "split_ws (sep @ descriptor) = [] # split_ws descriptor"
    using sep desc by (intro split_ws_gap) (simp_all add: hd_in_set)
  then have "split_ws (url @ sep @ descriptor) = [url, descriptor]"
    using split_ws_word [OF url(2), of "sep @ descriptor"] by (simp add: d)
  then show "srcset_entry ext (lead @ url @ sep @ descriptor @ trail)
           = ''/api/proxy?url='' @ encodeURIComponent url @ '' '' @ descriptor"
    using url(1) desc(1) by (simp add: srcset_entry_def t proxied_def)
next
  from url(1) have u: "url \<noteq> []" by auto
  have hl: "\<not> is_space (hd url)" "\<not> is_space (last url)"
    using u url(2) by simp_all
  have t: "trim (lead @ url @ trail) = url"
    using lead trail u hl by (rule trim_padded)
  have "split_ws url = [url]"
    using split_ws_word [OF url(2), of "[]"] by simp
  then show "srcset_entry ext (lead @ url @ trail) = ''/api/proxy?url='' @ encodeURIComponent url"
    using url(1) by (simp add: srcset_entry_def t proxied_def)
qed

text \<open>The theorem at the entries \<open> https://cdn.x.com/b.png  2x\<close> and \<open> https://cdn.x.com/b.png\<close>.\<close>

theorem srcset_absolute_entry_proxied_witness:
  "srcset_entry (\<lambda>_. None) '' https://cdn.x.com/b.png  2x''
     = ''/api/proxy?url=https%3A%2F%2Fcdn.x.com%2Fb.png 2x''
   \<and> srcset_entry (\<lambda>_. None) '' https://cdn.x.com/b.png''
     = ''/api/proxy?url=https%3A%2F%2Fcdn.x.com%2Fb.png''"
proof -
  have lead: "\<forall>c \<in> set '' ''. is_space c" by code_simp
  have trail: "\<forall>c \<in> set ''''. is_space c" by simp
  have sep: "''  '' \<noteq> []" "\<forall>c \<in> set ''  ''. is_space c" by code_simp+
  have url: "prefix ''http'' ''https://cdn.x.com/b.png''"
    "\<forall>c \<in> set ''https://cdn.x.com/b.png''. \<not> is_space c" by code_simp+
  have desc: "''2x'' \<noteq> []" "\<forall>c \<in> set ''2x''. \<not> is_space c" by code_simp+
  have enc: "encodeURIComponent ''https://cdn.x.com/b.png'' = ''https%3A%2F%2Fcdn.x.com%2Fb.png''"
    by code_simp
  show ?thesis
    using srcset_absolute_entry_proxied [OF lead trail sep url desc, of "\<lambda>_. None"]
    by (simp add: enc)
qed

section \<open>The injections and the missing parameter\<close>

lemma sub_first_no_match:
  "(\<And>s. s \<noteq> [] \<Longrightarrow> suffix s html \<Longrightarrow> m s = None) \<Longrightarrow> sub_first m html = html"
proof (induction html)
  case Nil
  show ?case by simp
next
  case (Cons c html)
  have "m (c # html) = None" by (rule Cons.prems) auto
  moreover have "sub_first m html = html"
  proof (rule Cons.IH)
    fix s :: string assume "s \<noteq> []" "suffix s html"
    then show "m s = None" by (intro Cons.prems) (auto simp: suffix_Cons)
  qed
  ultimately show ?case by simp
qed

lemma prefix_of_suffix_sublist: "prefix x s \<Longrightarrow> suffix s html \<Longrightarrow> sublist x html"
  by (auto simp: prefix_def suffix_def sublist_def)

text \<open>
  A text that holds no \<open><head\<close> gets no base tag, and a text that holds no \<open></head>\<close>
  gets no script: both steps leave it as it is.
\<close>

theorem injection_skipped_without_head:
  "(\<not> sublist ''<head'' html \<longrightarrow> inject_base url html = html)
   \<and> (\<not> sublist ''</head>'' html \<longrightarrow> inject_script script html = html)"
proof (intro conjI impI)
  assume no: "\<not> sublist ''<head'' html"
  show "inject_base url html = html"
    unfolding inject_base_def
  proof (rule sub_first_no_match)
    fix s :: string assume "s \<noteq> []" "suffix s html"
    with no have "\<not> prefix ''<head'' s" using prefix_of_suffix_sublist by blast
    then have "headPattern s = None" by (simp add: headPattern_def)
    then show "(case headPattern s of None \<Rightarrow> None
                | Some match \<Rightarrow> Some (length match, match @ baseTag url)) = None"
      by simp
  qed
next
  assume no: "\<not> sublist ''</head>'' html"
  show "inject_script script html = html"
    unfolding inject_script_def
  proof (rule sub_first_no_match)
    fix s :: string assume "s \<noteq> []" "suffix s html"
    with no have "\<not> prefix ''</head>'' s" using prefix_of_suffix_sublist by blast
    then show "(if prefix ''</head>'' s
                then Some (length ''</head>'', script @ ''</head>'') else None) = None"
      by simp
  qed
qed

text \<open>The theorem at \<open><p>x</p>\<close>.\<close>

theorem injection_skipped_without_head_witness:
  "inject_base ''https://b.com'' ''<p>x</p>'' = ''<p>x</p>''
   \<and> inject_script ''SCRIPT'' ''<p>x</p>'' = ''<p>x</p>''"
proof -
  have 1: "\<not> sublist ''<head'' ''<p>x</p>''" by code_simp
  have 2: "\<not> sublist ''</head>'' ''<p>x</p>''" by code_simp
  show ?thesis
    using injection_skipped_without_head [of "''<p>x</p>''" "''https://b.com''" "''SCRIPT''"] 1 2
    by simp
qed

text \<open>
  Without a \<open>url\<close> parameter, or with an empty one, the handler answers 400 with
  \<open>URL parameter is required\<close> and fetches nothing.
\<close>

theorem missing_url_parameter_rejected:
  "proxy_handler ext script toString fetch None
     = \<lparr> reply = \<lparr> res_status = 400, res_headers = Map.empty,
                    res_sent = Message ''URL parameter is required'' \<rparr>,
         fetched = [] \<rparr>
   \<and> proxy_handler ext script toString fetch (Some [])
     = \<lparr> reply = \<lparr> res_status = 400, res_headers = Map.empty,
                    res_sent = Message ''URL parameter is required'' \<rparr>,
         fetched = [] \<rparr>"
  by (simp add: proxy_handler_def)

text \<open>
  The defect behind the claims C1 and C7, for every value: an attribute value that is
  already of the form \<open>/api/proxy?url=...\<close> is taken by the pass over the root-relative
  values for a path of the page's host, and is encoded again.
\<close>

theorem proxied_value_rewritten_again:
  assumes "a \<in> set urlAttributes" and "map ascii_upper nm = map ascii_upper a"
    and "is_quote q" and "is_quote q'"
    and "\<forall>c \<in> set x. \<not> is_quote c"
    and "URL_new ext url = Some u"
    and "\<forall>s. s \<noteq> [] \<and> suffix s pre \<longrightarrow>
           relativeUrlPattern (s @ nm @ CHR ''='' # q # (''/api/proxy?url='' @ x) @ q' # post) = None"
  shows "rewrite_relative ext url (pre @ nm @ CHR ''='' # q # (''/api/proxy?url='' @ x) @ q' # post)
           = pre @ nm @ CHR ''='' # q #
               (''/api/proxy?url='' @
                  encodeURIComponent (protocol u @ ''//'' @ host u @ ''/api/proxy?url='' @ x)) @
               q' # rewrite_relative ext url post"
proof -
  have rel: "\<forall>c \<in> set (''api/proxy?url='' @ x). \<not> is_quote c"
    using assms(5) by (simp add: is_quote_def)
  have pre: "\<forall>s. s \<noteq> [] \<and> suffix s pre \<longrightarrow>
      relativeUrlPattern (s @ nm @ CHR ''='' # q # CHR ''/'' # (''api/proxy?url='' @ x) @ q' # post) = None"
    using assms(7) by simp
  show ?thesis
    using rewrite_relative_at [OF assms(1-4) rel assms(6) pre] by simp
qed

text \<open>The theorem at \<open><a href="/api/proxy?url=http%3A%2F%2Fa.b">\<close> for the page \<open>http://x.y\<close>.\<close>

theorem proxied_value_rewritten_again_witness:
  "rewrite_relative (\<lambda>_. None) ''http://x.y''
      (''<a href='' @ [dquote] @ ''/api/proxy?url=http%3A%2F%2Fa.b'' @ [dquote] @ ''>'')
     = ''<a href='' @ [dquote] @
         ''/api/proxy?url=http%3A%2F%2Fx.y%2Fapi%2Fproxy%3Furl%3Dhttp%253A%252F%252Fa.b'' @
         [dquote] @ ''>''"
proof -
  let ?rest = "''href'' @ CHR ''='' # dquote # (''/api/proxy?url='' @ ''http%3A%2F%2Fa.b'') @ dquote # ''>''"
  have a: "''href'' \<in> set urlAttributes" by code_simp
  have q: "is_quote dquote" by code_simp
  have x: "\<forall>c \<in> set ''http%3A%2F%2Fa.b''. \<not> is_quote c" by code_simp
  have u: "URL_new (\<lambda>_. None) ''http://x.y''
           = Some \<lparr>protocol = ''http:'', host = ''x.y'', hostname = ''x.y''\<rparr>"
    by code_simp
  have 1: "relativeUrlPattern ('' '' @ ?rest) = None" by code_simp
  have 2: "relativeUrlPattern (''a '' @ ?rest) = None" by code_simp
  have 3: "relativeUrlPattern (''<a '' @ ?rest) = None" by code_simp
  have pre: "\<forall>s. s \<noteq> [] \<and> suffix s ''<a '' \<longrightarrow> relativeUrlPattern (s @ ?rest) = None"
  proof (intro allI impI)
    fix s :: string assume s: "s \<noteq> [] \<and> suffix s ''<a ''"
    then have "s = '' '' \<or> s = ''a '' \<or> s = ''<a ''" by (auto simp: suffix_Cons)
    with 1 2 3 show "relativeUrlPattern (s @ ?rest) = None" by blast
  qed
  have enc: "encodeURIComponent (''http:'' @ ''//'' @ ''x.y'' @ ''/api/proxy?url='' @ ''http%3A%2F%2Fa.b'')
     = ''http%3A%2F%2Fx.y%2Fapi%2Fproxy%3Furl%3Dhttp%253A%252F%252Fa.b''"
    by code_simp
  have post: "rewrite_relative (\<lambda>_. None) ''http://x.y'' ''>'' = ''>''" by code_simp
  show ?thesis
    using proxied_value_rewritten_again [OF a refl q q x u pre] enc
    by (simp add: post)
qed

end
